theory Spec2Isabelle
  imports Complex_Main
begin

section \<open>Tensor values\<close>

text \<open>
  The module \<^verbatim>\<open>GlobalAttention.py\<close> computes with PyTorch tensors. A tensor is modelled
  as PyTorch stores a contiguous one: its shape and its elements in row-major order, so
  that \<^verbatim>\<open>view\<close> reinterprets the same element list under another shape.

  Numbers: an entry of a floating-point tensor is a finite number, an infinity or NaN;
  the type \<open>xreal\<close> below adds these special values to the reals, with the IEEE rules
  for them. Inputs and parameters may hold them, and the source itself writes one in
  \<^verbatim>\<open>masked_fill_(mask, -float('inf'))\<close>. Arithmetic on finite values is exact here:
  the rounding of a floating-point format is not modelled, and neither is overflow, so an
  operation on finite values gives a finite value. What is proved of finite values
  therefore holds of the program up to rounding, and as long as no intermediate result
  overflows.
\<close>

datatype xreal = Fin real | PInf | NInf | NaN

fun xmax :: "xreal \<Rightarrow> xreal \<Rightarrow> xreal" where
  "xmax NaN _ = NaN"
| "xmax _ NaN = NaN"
| "xmax PInf _ = PInf"
| "xmax _ PInf = PInf"
| "xmax NInf b = b"
| "xmax a NInf = a"
| "xmax (Fin a) (Fin b) = Fin (max a b)"

fun xsub :: "xreal \<Rightarrow> xreal \<Rightarrow> xreal" where
  "xsub NaN _ = NaN"
| "xsub _ NaN = NaN"
| "xsub (Fin a) (Fin b) = Fin (a - b)"
| "xsub (Fin a) PInf = NInf"
| "xsub (Fin a) NInf = PInf"
| "xsub PInf PInf = NaN"
| "xsub PInf _ = PInf"
| "xsub NInf NInf = NaN"
| "xsub NInf _ = NInf"

fun xexp :: "xreal \<Rightarrow> xreal" where
  "xexp (Fin a) = Fin (exp a)"
| "xexp PInf = PInf"
| "xexp NInf = Fin 0"
| "xexp NaN = NaN"

fun xadd :: "xreal \<Rightarrow> xreal \<Rightarrow> xreal" where
  "xadd NaN _ = NaN"
| "xadd _ NaN = NaN"
| "xadd (Fin a) (Fin b) = Fin (a + b)"
| "xadd PInf NInf = NaN"
| "xadd NInf PInf = NaN"
| "xadd PInf _ = PInf"
| "xadd _ PInf = PInf"
| "xadd NInf _ = NInf"
| "xadd _ NInf = NInf"

fun xneg :: "xreal \<Rightarrow> xreal" where
  "xneg (Fin a) = Fin (- a)"
| "xneg PInf = NInf"
| "xneg NInf = PInf"
| "xneg NaN = NaN"

fun xmul :: "xreal \<Rightarrow> xreal \<Rightarrow> xreal" where
  "xmul NaN _ = NaN"
| "xmul _ NaN = NaN"
| "xmul (Fin a) (Fin b) = Fin (a * b)"
| "xmul (Fin a) i = (if a = 0 then NaN else if 0 < a then i else xneg i)"
| "xmul i (Fin b) = (if b = 0 then NaN else if 0 < b then i else xneg i)"
| "xmul PInf i = i"
| "xmul NInf i = xneg i"

fun xdiv :: "xreal \<Rightarrow> xreal \<Rightarrow> xreal" where
  "xdiv NaN _ = NaN"
| "xdiv _ NaN = NaN"
| "xdiv (Fin a) (Fin b) =
     (if b \<noteq> 0 then Fin (a / b) else if a = 0 then NaN else if 0 < a then PInf else NInf)"
| "xdiv (Fin a) _ = Fin 0"
| "xdiv i (Fin b) = (if 0 \<le> b then i else xneg i)"
| "xdiv _ _ = NaN"

instantiation xreal :: comm_monoid_add
begin

definition zero_xreal :: xreal where
  "zero_xreal = Fin 0"

definition plus_xreal :: "xreal \<Rightarrow> xreal \<Rightarrow> xreal" where
  "plus_xreal = xadd"

instance
proof
  fix a b c :: xreal
  show "a + b + c = a + (b + c)"
    unfolding plus_xreal_def by (cases a; cases b; cases c) simp_all
  show "a + b = b + a"
    unfolding plus_xreal_def by (cases a; cases b) simp_all
  show "0 + a = a"
    unfolding plus_xreal_def zero_xreal_def by (cases a) simp_all
qed

end

instantiation xreal :: times
begin

definition times_xreal :: "xreal \<Rightarrow> xreal \<Rightarrow> xreal" where
  "times_xreal = xmul"

instance ..

end

record 'a tensor =
  shape :: "nat list"
  data :: "'a list"

text \<open>A tensor is well formed when it has as many elements as its shape says.\<close>

definition wf_tensor :: "'a tensor \<Rightarrow> bool" where
  "wf_tensor t = (length (data t) = prod_list (shape t))"

text \<open>The entry is a finite number.\<close>

fun is_finite :: "xreal \<Rightarrow> bool" where
  "is_finite (Fin a) = True"
| "is_finite _ = False"

definition finite_tensor :: "xreal tensor \<Rightarrow> bool" where
  "finite_tensor t = list_all is_finite (data t)"

section \<open>Errors\<close>

text \<open>
  PyTorch raises \<^verbatim>\<open>IndexError\<close> for a dimension out of range and \<^verbatim>\<open>RuntimeError\<close> for
  every shape mismatch; the string names the operation that raised.
\<close>

datatype error = IndexError | RuntimeError string

definition bnd :: "error + 'a \<Rightarrow> ('a \<Rightarrow> error + 'b) \<Rightarrow> error + 'b" where
  "bnd r f = (case r of Inl e \<Rightarrow> Inl e | Inr x \<Rightarrow> f x)"

section \<open>Tensor operations used by the module\<close>

text \<open>\<^verbatim>\<open>t.size(i)\<close>\<close>

definition size_at :: "'a tensor \<Rightarrow> nat \<Rightarrow> error + nat" where
  "size_at t i = (if i < length (shape t) then Inr (shape t ! i) else Inl IndexError)"

text \<open>
  \<^verbatim>\<open>t.view(d1, ..., dk)\<close> on a contiguous tensor. An argument \<^verbatim>\<open>-1\<close> is \<open>Infer\<close>: at
  most one may appear, and its size is the number of elements divided by the product of
  the others, which must be positive and divide it.
\<close>

datatype vdim = Sz nat | Infer

fun known :: "vdim list \<Rightarrow> nat list" where
  "known [] = []"
| "known (Sz k # ds) = k # known ds"
| "known (Infer # ds) = known ds"

fun fill_dims :: "nat \<Rightarrow> vdim list \<Rightarrow> nat list" where
  "fill_dims v [] = []"
| "fill_dims v (Sz k # ds) = k # fill_dims v ds"
| "fill_dims v (Infer # ds) = v # fill_dims v ds"

definition infer_size :: "vdim list \<Rightarrow> nat \<Rightarrow> error + nat list" where
  "infer_size ds n =
     (let newsize = prod_list (known ds); ninfer = length ds - length (known ds) in
      if ninfer = 0 then
        (if newsize = n then Inr (known ds) else Inl (RuntimeError ''view''))
      else if ninfer = 1 then
        (if 0 < newsize \<and> n mod newsize = 0 then Inr (fill_dims (n div newsize) ds)
         else Inl (RuntimeError ''view''))
      else Inl (RuntimeError ''view''))"

definition view :: "'a tensor \<Rightarrow> vdim list \<Rightarrow> error + 'a tensor" where
  "view t ds = bnd (infer_size ds (prod_list (shape t))) (\<lambda>s. Inr (t\<lparr>shape := s\<rparr>))"

text \<open>
  \<^verbatim>\<open>torch.transpose(t, 1, 2).contiguous()\<close>. The module only transposes what a three
  argument \<^verbatim>\<open>view\<close> returned, so the operand has rank 3; below rank 3 PyTorch raises
  \<^verbatim>\<open>IndexError\<close>.
\<close>

definition transpose_data :: "'a list \<Rightarrow> nat \<Rightarrow> nat \<Rightarrow> nat \<Rightarrow> 'a list" where
  "transpose_data xs b m n =
     concat (map (\<lambda>i. concat (map (\<lambda>j. map (\<lambda>k.
       xs ! (i * (m * n) + k * n + j)) [0..<m]) [0..<n])) [0..<b])"

definition transpose_1_2 :: "'a tensor \<Rightarrow> error + 'a tensor" where
  "transpose_1_2 t =
     (case shape t of
        [b, m, n] \<Rightarrow> Inr \<lparr>shape = [b, n, m], data = transpose_data (data t) b m n\<rparr>
      | _ \<Rightarrow> if length (shape t) < 3 then Inl IndexError
             else Inl (RuntimeError ''transpose''))"

text \<open>\<^verbatim>\<open>torch.bmm(a, b)\<close>: both of rank 3, equal batch sizes, inner sizes equal.\<close>

definition bmm_data ::
  "('a::{comm_monoid_add,times}) list \<Rightarrow> 'a list \<Rightarrow> nat \<Rightarrow> nat \<Rightarrow> nat \<Rightarrow> nat \<Rightarrow> 'a list" where
  "bmm_data xs ys b m k n =
     concat (map (\<lambda>i. concat (map (\<lambda>r. map (\<lambda>c.
       sum_list (map (\<lambda>l. xs ! (i * (m * k) + r * k + l) * ys ! (i * (k * n) + l * n + c))
                 [0..<k]))
       [0..<n]) [0..<m])) [0..<b])"

definition bmm :: "('a::{comm_monoid_add,times}) tensor \<Rightarrow> 'a tensor \<Rightarrow> error + 'a tensor" where
  "bmm a b =
     (case (shape a, shape b) of
        ([ba, m, k], [bb, k', n]) \<Rightarrow>
          if ba = bb \<and> k = k' then
            Inr \<lparr>shape = [ba, m, n], data = bmm_data (data a) (data b) ba m k n\<rparr>
          else Inl (RuntimeError ''bmm'')
      | _ \<Rightarrow> Inl (RuntimeError ''bmm''))"

text \<open>
  Row-major indexing: \<open>unravel\<close> splits a flat position into one index per dimension,
  \<open>ravel\<close> is its inverse. Broadcasting (\<^verbatim>\<open>torch.mul\<close>, \<^verbatim>\<open>masked_fill_\<close>) and
  \<^verbatim>\<open>repeat\<close> are defined with them, as PyTorch defines them on indices.
\<close>

fun unravel :: "nat list \<Rightarrow> nat \<Rightarrow> nat list" where
  "unravel [] i = []"
| "unravel (d # ds) i = (i div prod_list ds) # unravel ds (i mod prod_list ds)"

fun ravel :: "nat list \<Rightarrow> nat list \<Rightarrow> nat" where
  "ravel (d # ds) (k # ks) = k * prod_list ds + ravel ds ks"
| "ravel _ _ = 0"

definition pad_shape :: "nat \<Rightarrow> nat list \<Rightarrow> nat list" where
  "pad_shape r s = replicate (r - length s) 1 @ s"

text \<open>
  The position in a tensor of shape \<open>src\<close> that position \<open>i\<close> of the broadcast result
  of shape \<open>out\<close> reads: a dimension of size 1 is read at index 0. \<open>broadcast_to\<close> is
  the tensor expanded to the shape \<open>out\<close>.
\<close>

definition bindex :: "nat list \<Rightarrow> nat list \<Rightarrow> nat \<Rightarrow> nat" where
  "bindex src out i = ravel src (map2 (\<lambda>d k. if d = 1 then 0 else k) src (unravel out i))"

definition broadcast_to :: "'a tensor \<Rightarrow> nat list \<Rightarrow> 'a list" where
  "broadcast_to t out =
     map (\<lambda>i. data t ! bindex (pad_shape (length out) (shape t)) out i) [0..<prod_list out]"

definition broadcast_shapes :: "nat list \<Rightarrow> nat list \<Rightarrow> string \<Rightarrow> error + nat list" where
  "broadcast_shapes a b who =
     (let r = max (length a) (length b); a' = pad_shape r a; b' = pad_shape r b in
      if list_all2 (\<lambda>x y. x = y \<or> x = 1 \<or> y = 1) a' b'
      then Inr (map2 (\<lambda>x y. if x = 1 then y else x) a' b')
      else Inl (RuntimeError who))"

text \<open>\<^verbatim>\<open>torch.mul(a, b)\<close>, elementwise with broadcasting.\<close>

definition mul :: "('a::times) tensor \<Rightarrow> 'a tensor \<Rightarrow> error + 'a tensor" where
  "mul a b =
     bnd (broadcast_shapes (shape a) (shape b) ''mul'') (\<lambda>out.
       Inr \<lparr>shape = out, data = map2 (*) (broadcast_to a out) (broadcast_to b out)\<rparr>)"

text \<open>
  \<^verbatim>\<open>x.masked_fill_(m, v)\<close>: in place, so the mask must broadcast to the shape of
  \<open>x\<close>; the positions where the mask holds become \<open>v\<close>.
\<close>

definition masked_fill :: "'a tensor \<Rightarrow> bool tensor \<Rightarrow> 'a \<Rightarrow> error + 'a tensor" where
  "masked_fill x m v =
     bnd (broadcast_shapes (shape x) (shape m) ''masked_fill_'') (\<lambda>out.
       if out = shape x then
         Inr (x\<lparr>data := map2 (\<lambda>c e. if c then v else e) (broadcast_to m out) (data x)\<rparr>)
       else Inl (RuntimeError ''masked_fill_''))"

text \<open>
  \<^verbatim>\<open>t.repeat(r1, ..., rk)\<close>: the tensor tiled \<open>ri\<close> times along dimension \<open>i\<close>; the
  element at an index of the result is the element of \<open>t\<close> at that index modulo the
  shape of \<open>t\<close>.
\<close>

definition repeat_data :: "'a list \<Rightarrow> nat list \<Rightarrow> nat list \<Rightarrow> 'a list" where
  "repeat_data xs s out =
     map (\<lambda>i. xs ! ravel s (map2 (\<lambda>k d. k mod d) (unravel out i) s)) [0..<prod_list out]"

definition repeat :: "'a tensor \<Rightarrow> nat list \<Rightarrow> error + 'a tensor" where
  "repeat t reps =
     (if length reps < length (shape t) then Inl (RuntimeError ''repeat'')
      else
        (let s = pad_shape (length reps) (shape t); out = map2 (*) reps s in
         Inr \<lparr>shape = out, data = repeat_data (data t) s out\<rparr>))"

text \<open>\<^verbatim>\<open>t.unsqueeze(3)\<close> and \<^verbatim>\<open>t.squeeze(3)\<close>.\<close>

definition unsqueeze_3 :: "'a tensor \<Rightarrow> error + 'a tensor" where
  "unsqueeze_3 t =
     (if 3 \<le> length (shape t) then Inr (t\<lparr>shape := take 3 (shape t) @ [1] @ drop 3 (shape t)\<rparr>)
      else Inl IndexError)"

definition squeeze_3 :: "'a tensor \<Rightarrow> error + 'a tensor" where
  "squeeze_3 t =
     (if 3 < length (shape t) then
        (if shape t ! 3 = 1 then Inr (t\<lparr>shape := take 3 (shape t) @ drop 4 (shape t)\<rparr>)
         else Inr t)
      else Inl IndexError)"

text \<open>
  \<^verbatim>\<open>conv1x1(in_planes, out_planes)\<close> is \<^verbatim>\<open>nn.Conv2d\<close> with a 1x1 kernel, stride 1, no
  padding and no bias: the module is its weight, of shape \<open>[out_planes, in_planes, 1, 1]\<close>.
  Applied to \<open>[n, c, h, w]\<close>, or to an unbatched \<open>[c, h, w]\<close>, it needs
  \<open>c = in_planes\<close> and a non-empty image (the kernel must fit); for every other rank
  PyTorch raises.
\<close>

definition conv1x1_data ::
  "('a::{comm_monoid_add,times}) list \<Rightarrow> 'a list \<Rightarrow> nat \<Rightarrow> nat \<Rightarrow> nat \<Rightarrow> nat \<Rightarrow> 'a list" where
  "conv1x1_data ws xs n c out_planes hw =
     concat (map (\<lambda>i. concat (map (\<lambda>oc. map (\<lambda>p.
       sum_list (map (\<lambda>ic. ws ! (oc * c + ic) * xs ! (i * (c * hw) + ic * hw + p)) [0..<c]))
       [0..<hw]) [0..<out_planes])) [0..<n])"

definition conv1x1 ::
  "('a::{comm_monoid_add,times}) tensor \<Rightarrow> 'a tensor \<Rightarrow> error + 'a tensor" where
  "conv1x1 wt x =
     (case (shape wt, shape x) of
        ([out_planes, in_planes, kh, kw], [n, c, h, w]) \<Rightarrow>
          if kh = 1 \<and> kw = 1 \<and> c = in_planes \<and> 1 \<le> h \<and> 1 \<le> w then
            Inr \<lparr>shape = [n, out_planes, h, w],
                 data = conv1x1_data (data wt) (data x) n c out_planes (h * w)\<rparr>
          else Inl (RuntimeError ''conv2d'')
      | ([out_planes, in_planes, kh, kw], [c, h, w]) \<Rightarrow>
          if kh = 1 \<and> kw = 1 \<and> c = in_planes \<and> 1 \<le> h \<and> 1 \<le> w then
            Inr \<lparr>shape = [out_planes, h, w],
                 data = conv1x1_data (data wt) (data x) 1 c out_planes (h * w)\<rparr>
          else Inl (RuntimeError ''conv2d'')
      | _ \<Rightarrow> Inl (RuntimeError ''conv2d''))"

text \<open>
  \<^verbatim>\<open>nn.Linear(in_features, out_features)\<close>: a weight of shape
  \<open>[out_features, in_features]\<close> and a bias of shape \<open>[out_features]\<close>, applied to the
  last dimension of its input, which must be \<open>in_features\<close>.
\<close>

record Linear =
  weight :: "xreal tensor"
  bias :: "xreal tensor"

definition linear_data ::
  "('a::{comm_monoid_add,times}) list \<Rightarrow> 'a list \<Rightarrow> 'a list \<Rightarrow> nat \<Rightarrow> nat \<Rightarrow> nat \<Rightarrow> 'a list" where
  "linear_data xs ws bs rows in_features out_features =
     concat (map (\<lambda>r. map (\<lambda>oc.
       sum_list (map (\<lambda>ic. xs ! (r * in_features + ic) * ws ! (oc * in_features + ic))
                 [0..<in_features]) + bs ! oc)
       [0..<out_features]) [0..<rows])"

definition F_linear :: "Linear \<Rightarrow> xreal tensor \<Rightarrow> error + xreal tensor" where
  "F_linear l x =
     (case shape (weight l) of
        [out_features, in_features] \<Rightarrow>
          if shape x \<noteq> [] \<and> last (shape x) = in_features then
            Inr \<lparr>shape = butlast (shape x) @ [out_features],
                 data = linear_data (data x) (data (weight l)) (data (bias l))
                          (prod_list (butlast (shape x))) in_features out_features\<rparr>
          else Inl (RuntimeError ''linear'')
      | _ \<Rightarrow> Inl (RuntimeError ''linear''))"

text \<open>
  \<^verbatim>\<open>nn.Softmax()\<close> is built without a \<^verbatim>\<open>dim\<close>, so PyTorch chooses the dimension from
  the rank of the input: dimension 0 for rank 0, 1 and 3, dimension 1 otherwise. The
  kernel subtracts the maximum of each lane before exponentiating: \<open>xsoftmax_row\<close> is
  the softmax of one lane. On a lane of finite numbers it is \<open>softmax_row\<close>, the
  softmax of real numbers (lemma \<open>xsoftmax_row_Fin\<close> below).
\<close>

definition softmax_dim :: "nat \<Rightarrow> nat" where
  "softmax_dim ndim = (if ndim = 0 \<or> ndim = 1 \<or> ndim = 3 then 0 else 1)"

fun xsoftmax_row :: "xreal list \<Rightarrow> xreal list" where
  "xsoftmax_row [] = []"
| "xsoftmax_row (x # xs) =
     (let m = fold xmax xs x;
          es = map (\<lambda>y. xexp (xsub y m)) (x # xs);
          s = sum_list es
      in map (\<lambda>e. xdiv e s) es)"

fun softmax_row :: "real list \<Rightarrow> real list" where
  "softmax_row [] = []"
| "softmax_row (x # xs) =
     (let m = fold max xs x;
          es = map (\<lambda>y. exp (y - m)) (x # xs);
          s = sum_list es
      in map (\<lambda>e. e / s) es)"

text \<open>
  The lane through flat position \<open>i\<close> along a dimension of size \<open>n\<close> whose inner
  dimensions have \<open>inner\<close> elements together.
\<close>

definition lane :: "'a list \<Rightarrow> nat \<Rightarrow> nat \<Rightarrow> nat \<Rightarrow> 'a list" where
  "lane xs n inner i =
     map (\<lambda>j. xs ! ((i div (n * inner)) * (n * inner) + j * inner + i mod inner)) [0..<n]"

definition softmax_lanes :: "('a list \<Rightarrow> 'a list) \<Rightarrow> nat \<Rightarrow> nat \<Rightarrow> 'a list \<Rightarrow> 'a list" where
  "softmax_lanes f n inner xs =
     map (\<lambda>i. f (lane xs n inner i) ! ((i div inner) mod n)) [0..<length xs]"

definition nn_Softmax :: "xreal tensor \<Rightarrow> xreal tensor" where
  "nn_Softmax t =
     (let d = softmax_dim (length (shape t));
          n = (if d < length (shape t) then shape t ! d else 1);
          inner = prod_list (drop (Suc d) (shape t))
      in t\<lparr>data := softmax_lanes xsoftmax_row n inner (data t)\<rparr>)"

text \<open>\<^verbatim>\<open>attn * gamma1\<close>, a tensor times a Python number, which is taken to be finite.\<close>

definition scale :: "xreal tensor \<Rightarrow> real \<Rightarrow> xreal tensor" where
  "scale t g = t\<lparr>data := map (\<lambda>x. x * Fin g) (data t)\<rparr>"

section \<open>The attention function\<close>

text \<open>
  \<^verbatim>\<open>func_attention(query, context, gamma1)\<close>, line by line. The trace also returns
  three intermediate values of \<open>attn\<close>: the similarities, as the first
  \<^verbatim>\<open>nn.Softmax()\<close> receives them (the comment "Eq. (7)", viewed with shape
  \<open>[batch_size * sourceL, queryL]\<close>), \<open>attn\<close> after the first \<^verbatim>\<open>nn.Softmax()\<close>
  (the comment "Eq. (8)", same shape) and after the second (the comment "Eq. (9)", shape
  \<open>[batch_size * queryL, sourceL]\<close>).
\<close>

definition func_attention_trace ::
  "xreal tensor \<Rightarrow> xreal tensor \<Rightarrow> real \<Rightarrow>
   error + (xreal tensor \<times> xreal tensor \<times> xreal tensor \<times> xreal tensor \<times> xreal tensor)" where
  "func_attention_trace query context gamma1 =
     bnd (size_at query 0) (\<lambda>batch_size.
     bnd (size_at query 2) (\<lambda>queryL.
     bnd (size_at context 2) (\<lambda>ih.
     bnd (size_at context 3) (\<lambda>iw.
     let sourceL = ih * iw in
     bnd (view context [Sz batch_size, Infer, Sz sourceL]) (\<lambda>context.
     bnd (transpose_1_2 context) (\<lambda>contextT.
     bnd (bmm contextT query) (\<lambda>attn.
     bnd (view attn [Sz (batch_size * sourceL), Sz queryL]) (\<lambda>attn7.
     let attn8 = nn_Softmax attn7 in
     bnd (view attn8 [Sz batch_size, Sz sourceL, Sz queryL]) (\<lambda>attn.
     bnd (transpose_1_2 attn) (\<lambda>attn.
     bnd (view attn [Sz (batch_size * queryL), Sz sourceL]) (\<lambda>attn.
     let attn = scale attn gamma1;
         attn9 = nn_Softmax attn in
     bnd (view attn9 [Sz batch_size, Sz queryL, Sz sourceL]) (\<lambda>attn.
     bnd (transpose_1_2 attn) (\<lambda>attnT.
     bnd (bmm context attnT) (\<lambda>weightedContext.
     bnd (view attn [Sz batch_size, Infer, Sz ih, Sz iw]) (\<lambda>attn_map.
     Inr (attn7, attn8, attn9, weightedContext, attn_map))))))))))))))))"

definition func_attention ::
  "xreal tensor \<Rightarrow> xreal tensor \<Rightarrow> real \<Rightarrow> error + (xreal tensor \<times> xreal tensor)" where
  "func_attention query context gamma1 =
     bnd (func_attention_trace query context gamma1)
       (\<lambda>(attn7, attn8, attn9, weightedContext, attn_map). Inr (weightedContext, attn_map))"

section \<open>The layer\<close>

text \<open>
  An instance of \<^verbatim>\<open>GlobalAttentionGeneral\<close>: the two 1x1 convolutions, the linear map
  and the mask, which is \<^verbatim>\<open>None\<close> or a boolean tensor. (\<^verbatim>\<open>self.sm\<close> is
  \<^verbatim>\<open>nn.Softmax()\<close> and has no state.)
\<close>

record layer =
  conv_context :: "xreal tensor"
  conv_sentence_vis :: "xreal tensor"
  linear_m :: Linear
  mask_t :: "bool tensor option"

text \<open>
  \<^verbatim>\<open>__init__(idf, cdf)\<close>. PyTorch draws the initial parameter values at random; they
  are arguments here.
\<close>

definition GlobalAttentionGeneral ::
  "nat \<Rightarrow> nat \<Rightarrow> xreal list \<Rightarrow> xreal list \<Rightarrow> xreal list \<Rightarrow> xreal list \<Rightarrow> layer" where
  "GlobalAttentionGeneral idf cdf w_context w_sentence w_linear b_linear =
     \<lparr>conv_context = \<lparr>shape = [idf, cdf, 1, 1], data = w_context\<rparr>,
      conv_sentence_vis = \<lparr>shape = [idf, idf, 1, 1], data = w_sentence\<rparr>,
      linear_m = \<lparr>weight = \<lparr>shape = [idf, 100], data = w_linear\<rparr>,
                  bias = \<lparr>shape = [idf], data = b_linear\<rparr>\<rparr>,
      mask_t = None\<rparr>"

definition applyMask :: "layer \<Rightarrow> bool tensor option \<Rightarrow> layer" where
  "applyMask self m = self\<lparr>mask_t := m\<rparr>"

text \<open>
  \<^verbatim>\<open>forward(input, sentence, context)\<close>, line by line (the \<^verbatim>\<open>print\<close> calls left out).
  The trace also returns \<open>attn\<close> as it is after \<^verbatim>\<open>self.sm\<close>, of shape
  \<open>[batch_size * queryL, sourceL]\<close>.
\<close>

definition forward_trace ::
  "layer \<Rightarrow> xreal tensor \<Rightarrow> xreal tensor \<Rightarrow> xreal tensor \<Rightarrow>
   error + (xreal tensor \<times> xreal tensor \<times> xreal tensor \<times> xreal tensor \<times> xreal tensor)" where
  "forward_trace self input sentence context =
     bnd (size_at input 1) (\<lambda>idf.
     bnd (size_at input 2) (\<lambda>ih.
     bnd (size_at input 3) (\<lambda>iw.
     let queryL = ih * iw in
     bnd (size_at context 0) (\<lambda>batch_size.
     bnd (size_at context 2) (\<lambda>sourceL.
     bnd (view input [Sz batch_size, Infer, Sz queryL]) (\<lambda>target.
     bnd (transpose_1_2 target) (\<lambda>targetT.
     bnd (unsqueeze_3 context) (\<lambda>sourceT.
     bnd (conv1x1 (conv_context self) sourceT) (\<lambda>sourceT.
     bnd (squeeze_3 sourceT) (\<lambda>sourceT.
     bnd (bmm targetT sourceT) (\<lambda>attn.
     bnd (view attn [Sz (batch_size * queryL), Sz sourceL]) (\<lambda>attn.
     bnd (case mask_t self of
            None \<Rightarrow> Inr attn
          | Some m \<Rightarrow>
              bnd (repeat m [queryL, 1]) (\<lambda>mask.
              masked_fill attn mask NInf)) (\<lambda>attn.
     let attn_sm = nn_Softmax attn in
     bnd (view attn_sm [Sz batch_size, Sz queryL, Sz sourceL]) (\<lambda>attn.
     bnd (transpose_1_2 attn) (\<lambda>attn.
     bnd (bmm sourceT attn) (\<lambda>weightedContext.
     bnd (view weightedContext [Sz batch_size, Infer, Sz ih, Sz iw]) (\<lambda>weightedContext.
     bnd (view attn [Sz batch_size, Infer, Sz ih, Sz iw]) (\<lambda>word_attn.
     bnd (F_linear (linear_m self) sentence) (\<lambda>sentence.
     bnd (view sentence [Sz batch_size, Sz idf, Sz 1, Sz 1]) (\<lambda>sentence.
     bnd (repeat sentence [1, 1, ih, iw]) (\<lambda>sentence.
     bnd (mul input sentence) (\<lambda>sentence_vs.
     bnd (conv1x1 (conv_sentence_vis self) sentence_vs) (\<lambda>sentence_vs.
     let sent_att = nn_Softmax sentence_vs in
     bnd (mul sentence sent_att) (\<lambda>weightedSentence.
     Inr (attn_sm, weightedContext, weightedSentence, word_attn, sent_att)
     ))))))))))))))))))))))))"

definition forward ::
  "layer \<Rightarrow> xreal tensor \<Rightarrow> xreal tensor \<Rightarrow> xreal tensor \<Rightarrow>
   error + (xreal tensor \<times> xreal tensor \<times> xreal tensor \<times> xreal tensor)" where
  "forward self input sentence context =
     bnd (forward_trace self input sentence context)
       (\<lambda>(attn_sm, weightedContext, weightedSentence, word_attn, sent_att).
          Inr (weightedContext, weightedSentence, word_attn, sent_att))"

section \<open>Reading a tensor, and the calls the contract is about\<close>

text \<open>\<open>elem t [i, j, ...]\<close> is the element \<open>t[i, j, ...]\<close>.\<close>

definition elem :: "'a tensor \<Rightarrow> nat list \<Rightarrow> 'a" where
  "elem t idx = data t ! ravel (shape t) idx"

text \<open>
  A call of \<^verbatim>\<open>forward\<close> as its docstring describes it: \<open>input\<close> of shape
  \<open>[B, D, H, W]\<close>, \<open>sentence\<close> of shape \<open>[B, 100]\<close>, \<open>context\<close> of shape
  \<open>[B, C, S]\<close>, on a layer built by \<^verbatim>\<open>GlobalAttentionGeneral(D, C)\<close> whose mask, when
  set, has shape \<open>[B, S]\<close>; no dimension is empty.
\<close>

definition valid_call ::
  "layer \<Rightarrow> xreal tensor \<Rightarrow> xreal tensor \<Rightarrow> xreal tensor \<Rightarrow>
   nat \<Rightarrow> nat \<Rightarrow> nat \<Rightarrow> nat \<Rightarrow> nat \<Rightarrow> nat \<Rightarrow> bool" where
  "valid_call self input sentence context B D H W C S =
     (shape input = [B, D, H, W] \<and> shape sentence = [B, 100] \<and> shape context = [B, C, S] \<and>
      shape (conv_context self) = [D, C, 1, 1] \<and>
      shape (conv_sentence_vis self) = [D, D, 1, 1] \<and>
      shape (weight (linear_m self)) = [D, 100] \<and>
      (case mask_t self of None \<Rightarrow> True | Some m \<Rightarrow> shape m = [B, S]) \<and>
      0 < B \<and> 0 < D \<and> 0 < H \<and> 0 < W \<and> 0 < C \<and> 0 < S)"

text \<open>
  A call of \<^verbatim>\<open>func_attention\<close> as its docstring describes it: \<open>query\<close> of shape
  \<open>[B, D, Q]\<close> and \<open>context\<close> of shape \<open>[B, D, ih, iw]\<close>.
\<close>

definition valid_attention_call ::
  "xreal tensor \<Rightarrow> xreal tensor \<Rightarrow> nat \<Rightarrow> nat \<Rightarrow> nat \<Rightarrow> nat \<Rightarrow> nat \<Rightarrow> bool" where
  "valid_attention_call query context B D Q ih iw =
     (shape query = [B, D, Q] \<and> shape context = [B, D, ih, iw] \<and>
      0 < B \<and> 0 < D \<and> 0 < Q \<and> 0 < ih \<and> 0 < iw)"

section \<open>Example calls\<close>

text \<open>
  A layer with 4 channels for a context with 6, called on a batch of 2 images of 3 by 3
  positions and 5 context vectors each.
\<close>

definition ex_layer :: layer where
  "ex_layer = GlobalAttentionGeneral 4 6 (replicate 24 (Fin 0)) (replicate 16 (Fin 0))
                (replicate 400 (Fin 0)) (replicate 4 (Fin 0))"

definition ex_input :: "xreal tensor" where
  "ex_input = \<lparr>shape = [2, 4, 3, 3], data = replicate 72 (Fin 0)\<rparr>"

definition ex_sentence :: "xreal tensor" where
  "ex_sentence = \<lparr>shape = [2, 100], data = replicate 200 (Fin 0)\<rparr>"

definition ex_context :: "xreal tensor" where
  "ex_context = \<lparr>shape = [2, 6, 5], data = replicate 60 (Fin 0)\<rparr>"

text \<open>
  A layer whose mask marks both context positions of its only batch element.
\<close>

definition nan_layer :: layer where
  "nan_layer = applyMask (GlobalAttentionGeneral 1 1 [Fin 0] [Fin 0] (replicate 100 (Fin 0)) [Fin 0])
                 (Some \<lparr>shape = [1, 2], data = [True, True]\<rparr>)"

definition nan_input :: "xreal tensor" where
  "nan_input = \<lparr>shape = [1, 1, 1, 1], data = [Fin 0]\<rparr>"

definition nan_sentence :: "xreal tensor" where
  "nan_sentence = \<lparr>shape = [1, 100], data = replicate 100 (Fin 0)\<rparr>"

definition nan_context :: "xreal tensor" where
  "nan_context = \<lparr>shape = [1, 1, 2], data = [Fin 0, Fin 0]\<rparr>"

text \<open>
  A batch of two with two query positions and two context positions; the mask marks
  context position 0 of batch element 0 and nothing of batch element 1.
\<close>

definition bug_layer :: layer where
  "bug_layer = applyMask (GlobalAttentionGeneral 1 1 [Fin 0] [Fin 0] (replicate 100 (Fin 0)) [Fin 0])
                 (Some \<lparr>shape = [2, 2], data = [True, False, False, False]\<rparr>)"

definition bug_input :: "xreal tensor" where
  "bug_input = \<lparr>shape = [2, 1, 1, 2], data = [Fin 0, Fin 0, Fin 0, Fin 0]\<rparr>"

definition bug_sentence :: "xreal tensor" where
  "bug_sentence = \<lparr>shape = [2, 100], data = replicate 200 (Fin 0)\<rparr>"

definition bug_context :: "xreal tensor" where
  "bug_context = \<lparr>shape = [2, 1, 2], data = [Fin 0, Fin 0, Fin 0, Fin 0]\<rparr>"

text \<open>
  The same batch of two, with a mask that marks both context positions of batch element 0
  and nothing of batch element 1.
\<close>

definition full_mask :: "bool tensor" where
  "full_mask = \<lparr>shape = [2, 2], data = [True, True, False, False]\<rparr>"

definition full_layer :: layer where
  "full_layer = applyMask (GlobalAttentionGeneral 1 1 [Fin 0] [Fin 0] (replicate 100 (Fin 0)) [Fin 0])
                  (Some full_mask)"

text \<open>
  A layer with one channel whose gating convolution is the identity and whose linear map
  is the constant 1, called on one image of one position that holds \<open>+inf\<close>.
\<close>

definition inf_layer :: layer where
  "inf_layer = GlobalAttentionGeneral 1 1 [Fin 0] [Fin 1] (replicate 100 (Fin 0)) [Fin 1]"

definition inf_input :: "xreal tensor" where
  "inf_input = \<lparr>shape = [1, 1, 1, 1], data = [PInf]\<rparr>"

definition inf_sentence :: "xreal tensor" where
  "inf_sentence = \<lparr>shape = [1, 100], data = replicate 100 (Fin 0)\<rparr>"

definition inf_context :: "xreal tensor" where
  "inf_context = \<lparr>shape = [1, 1, 1], data = [Fin 0]\<rparr>"

text \<open>
  A layer with two channels whose gating convolution is the identity and whose linear map
  is the constant 1, called on one image of one position.
\<close>

definition gate_layer :: layer where
  "gate_layer = GlobalAttentionGeneral 2 1 [Fin 0, Fin 0] [Fin 1, Fin 0, Fin 0, Fin 1]
                  (replicate 200 (Fin 0)) [Fin 1, Fin 1]"

definition gate_input :: "xreal tensor" where
  "gate_input = \<lparr>shape = [1, 2, 1, 1], data = [Fin 1, Fin 2]\<rparr>"

definition gate_sentence :: "xreal tensor" where
  "gate_sentence = \<lparr>shape = [1, 100], data = replicate 100 (Fin 0)\<rparr>"

definition gate_context :: "xreal tensor" where
  "gate_context = \<lparr>shape = [1, 1, 1], data = [Fin 0]\<rparr>"

text \<open>Calls of \<^verbatim>\<open>func_attention\<close>: three query positions and two context positions.\<close>

definition fa_query :: "xreal tensor" where
  "fa_query = \<lparr>shape = [1, 1, 3], data = [Fin 0, Fin 0, Fin 0]\<rparr>"

definition fa_context :: "xreal tensor" where
  "fa_context = \<lparr>shape = [1, 1, 1, 2], data = [Fin 0, Fin 0]\<rparr>"

section \<open>Sequencing and indexing lemmas\<close>

lemma bnd_Inr [simp]: "bnd (Inr x) f = f x"
  by (simp add: bnd_def)

lemma bnd_Inl [simp]: "bnd (Inl e) f = Inl e"
  by (simp add: bnd_def)

lemma bnd_eq_Inr: "bnd r f = Inr y \<longleftrightarrow> (\<exists>x. r = Inr x \<and> f x = Inr y)"
  by (cases r) simp_all

lemma nth_concat_uniform:
  assumes "\<And>i. i < b \<Longrightarrow> length (F i) = L" and "i < b" and "k < L"
  shows "concat (map F [0..<b]) ! (i * L + k) = F i ! k"
  using assms
proof (induction b arbitrary: i)
  case 0
  then show ?case by simp
next
  case (Suc b)
  have len: "length (concat (map F [0..<b])) = b * L"
    using Suc.prems(1) by (induction b) simp_all
  show ?case
  proof (cases "i < b")
    case True
    have "i * L + k < b * L"
    proof -
      have "i * L + k < i * L + L" using Suc.prems(3) by simp
      also have "\<dots> = Suc i * L" by simp
      also have "\<dots> \<le> b * L" using True by (intro mult_le_mono1) simp
      finally show ?thesis .
    qed
    then show ?thesis
      using Suc.IH[of i] Suc.prems True by (simp add: nth_append len)
  next
    case False
    then have "i = b" using Suc.prems(2) by simp
    then show ?thesis by (simp add: nth_append len)
  qed
qed

lemma length_concat_uniform:
  "(\<And>i. i < b \<Longrightarrow> length (F i) = L) \<Longrightarrow> length (concat (map F [0..<b])) = b * L"
  by (induction b) simp_all

lemma index_bound2: "i < (b::nat) \<Longrightarrow> k < L \<Longrightarrow> i * L + k < b * L"
proof -
  assume a: "i < b" "k < L"
  have "i * L + k < i * L + L" using a by simp
  also have "\<dots> = Suc i * L" by simp
  also have "\<dots> \<le> b * L" using a by (intro mult_le_mono1) simp
  finally show ?thesis .
qed

lemma softmax_row_length [simp]: "length (softmax_row xs) = length xs"
  by (cases xs) (simp_all add: Let_def)

lemma sum_list_exp_shift:
  "sum_list (map (\<lambda>y. exp (y - m)) xs) = sum_list (map exp xs) / exp (m::real)"
  by (induction xs) (simp_all add: exp_diff add_divide_distrib)

lemma softmax_row_closed:
  "softmax_row xs = map (\<lambda>x. exp x / sum_list (map exp xs)) xs"
proof (cases xs)
  case Nil
  then show ?thesis by simp
next
  case (Cons x ys)
  define m where "m = fold max ys x"
  have "softmax_row (x # ys) =
        map (\<lambda>e. e / sum_list (map (\<lambda>y. exp (y - m)) (x # ys))) (map (\<lambda>y. exp (y - m)) (x # ys))"
    unfolding m_def softmax_row.simps Let_def ..
  also have "\<dots> = map (\<lambda>x'. exp x' / sum_list (map exp (x # ys))) (x # ys)"
    unfolding sum_list_exp_shift map_map comp_def by (simp add: exp_diff)
  finally show ?thesis unfolding Cons .
qed

lemma sum_list_exp_pos: "xs \<noteq> [] \<Longrightarrow> 0 < sum_list (map exp (xs::real list))"
proof (cases xs)
  case Nil
  then show "xs \<noteq> [] \<Longrightarrow> ?thesis" by simp
next
  case (Cons a ys)
  have "0 \<le> sum_list (map exp ys)" by (rule sum_list_nonneg) auto
  then show ?thesis unfolding Cons by (simp add: add_pos_nonneg)
qed

lemma softmax_row_sum: "xs \<noteq> [] \<Longrightarrow> sum_list (softmax_row xs) = 1"
proof -
  assume ne: "xs \<noteq> []"
  have "sum_list (map (\<lambda>x. exp x / c) xs) = sum_list (map exp xs) / c" for c :: real
    by (induction xs) (simp_all add: add_divide_distrib)
  then show ?thesis
    using sum_list_exp_pos[OF ne] by (simp add: softmax_row_closed)
qed

lemma softmax_row_pos: "y \<in> set (softmax_row xs) \<Longrightarrow> 0 < y"
proof -
  assume y: "y \<in> set (softmax_row xs)"
  then have "xs \<noteq> []" by auto
  from sum_list_exp_pos[OF this] y show ?thesis
    by (auto simp: softmax_row_closed)
qed

lemma lane_index:
  fixes ob n inner j k :: nat
  assumes "k < inner" "j < n"
  shows "(ob * (n * inner) + j * inner + k) div (n * inner) = ob"
    and "(ob * (n * inner) + j * inner + k) mod inner = k"
    and "((ob * (n * inner) + j * inner + k) div inner) mod n = j"
proof -
  have lt: "j * inner + k < n * inner" using assms(2,1) by (rule index_bound2)
  have nz: "n * inner \<noteq> 0" using assms by auto
  have "(ob * (n * inner) + j * inner + k) div (n * inner)
        = ((j * inner + k) + ob * (n * inner)) div (n * inner)"
    by (simp add: ac_simps)
  also have "\<dots> = ob + (j * inner + k) div (n * inner)"
    using nz by (rule div_mult_self1)
  also have "\<dots> = ob" using lt by simp
  finally show "(ob * (n * inner) + j * inner + k) div (n * inner) = ob" .
  have e: "ob * (n * inner) + j * inner + k = k + (ob * n + j) * inner"
    by (simp add: algebra_simps)
  show "(ob * (n * inner) + j * inner + k) mod inner = k"
    unfolding e using assms(1) by simp
  have "(ob * (n * inner) + j * inner + k) div inner = ob * n + j"
    unfolding e using assms(1) by simp
  then show "((ob * (n * inner) + j * inner + k) div inner) mod n = j"
    using assms(2) by simp
qed

lemma index_bound3:
  "ob < (outer::nat) \<Longrightarrow> j < n \<Longrightarrow> k < inner \<Longrightarrow> ob * (n * inner) + j * inner + k < outer * (n * inner)"
  using index_bound2[where i=ob and b=outer and k="j * inner + k" and L="n * inner"]
    index_bound2[where i=j and b=n and k=k and L=inner]
  by (simp add: add.assoc)

lemma lane_at:
  assumes "k < inner" "j < n"
  shows "lane xs n inner (ob * (n * inner) + j * inner + k)
         = map (\<lambda>j'. xs ! (ob * (n * inner) + j' * inner + k)) [0..<n]"
  unfolding lane_def by (simp add: lane_index(1,2)[OF assms])

lemma softmax_lanes_at:
  assumes "length xs = outer * (n * inner)" "ob < outer" "j < n" "k < inner"
  shows "softmax_lanes f n inner xs ! (ob * (n * inner) + j * inner + k)
         = f (map (\<lambda>j'. xs ! (ob * (n * inner) + j' * inner + k)) [0..<n]) ! j"
proof -
  have "ob * (n * inner) + j * inner + k < length xs"
    using assms index_bound3 by simp
  then show ?thesis
    unfolding softmax_lanes_def
    by (simp add: lane_at[OF assms(4,3)] lane_index(3)[OF assms(4,3)])
qed

section \<open>Symbolic execution of the operations\<close>

lemma view3_infer:
  "prod_list (shape t) = a * (d * c) \<Longrightarrow> 0 < a \<Longrightarrow> 0 < c \<Longrightarrow>
   view t [Sz a, Infer, Sz c] = Inr (t\<lparr>shape := [a, d, c]\<rparr>)"
  by (simp add: view_def infer_size_def Let_def mult.assoc[symmetric] mult.commute[of "a * c"]  )

lemma div_mod_prod4 [simp]:
  "0 < a \<Longrightarrow> 0 < h \<Longrightarrow> 0 < w \<Longrightarrow> (a * (d * (h * w))) mod (a * (h * w)) = (0::nat)"
  "0 < a \<Longrightarrow> 0 < h \<Longrightarrow> 0 < w \<Longrightarrow> (a * (d * (h * w))) div (a * (h * w)) = (d::nat)"
proof -
  have e: "a * (d * (h * w)) = d * (a * (h * w))" by (simp add: ac_simps)
  show "0 < a \<Longrightarrow> 0 < h \<Longrightarrow> 0 < w \<Longrightarrow> (a * (d * (h * w))) mod (a * (h * w)) = (0::nat)"
    unfolding e by simp
  show "0 < a \<Longrightarrow> 0 < h \<Longrightarrow> 0 < w \<Longrightarrow> (a * (d * (h * w))) div (a * (h * w)) = (d::nat)"
    unfolding e by simp
qed

lemma view4_infer:
  "prod_list (shape t) = a * (d * (h * w)) \<Longrightarrow> 0 < a \<Longrightarrow> 0 < h \<Longrightarrow> 0 < w \<Longrightarrow>
   view t [Sz a, Infer, Sz h, Sz w] = Inr (t\<lparr>shape := [a, d, h, w]\<rparr>)"
  by (simp add: view_def infer_size_def Let_def)

lemma view2_exact:
  "prod_list (shape t) = a * b \<Longrightarrow> view t [Sz a, Sz b] = Inr (t\<lparr>shape := [a, b]\<rparr>)"
  by (simp add: view_def infer_size_def Let_def)

lemma view3_exact:
  "prod_list (shape t) = a * (b * c) \<Longrightarrow> view t [Sz a, Sz b, Sz c] = Inr (t\<lparr>shape := [a, b, c]\<rparr>)"
  by (simp add: view_def infer_size_def Let_def)

lemma view4_exact:
  "prod_list (shape t) = a * (b * (c * d)) \<Longrightarrow>
   view t [Sz a, Sz b, Sz c, Sz d] = Inr (t\<lparr>shape := [a, b, c, d]\<rparr>)"
  by (simp add: view_def infer_size_def Let_def)

lemmas op_defs = size_at_def view_def infer_size_def transpose_1_2_def
  unsqueeze_3_def squeeze_3_def conv1x1_def bmm_def repeat_def masked_fill_def
  broadcast_shapes_def pad_shape_def F_linear_def mul_def nn_Softmax_def softmax_dim_def Let_def

lemma nth_concat3:
  assumes "i < b" "j < n" "k < m"
  shows "concat (map (\<lambda>i. concat (map (\<lambda>j. map (\<lambda>k. f i j k) [0..<m]) [0..<n])) [0..<b])
           ! (i * (n * m) + j * m + k) = f i j k"
proof -
  have inner: "length (concat (map (\<lambda>j. map (\<lambda>k. f i' j k) [0..<m]) [0..<n])) = n * m" for i'
    by (rule length_concat_uniform) simp
  have lt: "j * m + k < n * m" using assms(2,3) by (rule index_bound2)
  have "concat (map (\<lambda>i. concat (map (\<lambda>j. map (\<lambda>k. f i j k) [0..<m]) [0..<n])) [0..<b])
           ! (i * (n * m) + (j * m + k))
        = concat (map (\<lambda>j. map (\<lambda>k. f i j k) [0..<m]) [0..<n]) ! (j * m + k)"
    by (rule nth_concat_uniform) (simp_all add: inner assms(1) lt)
  also have "\<dots> = map (\<lambda>k. f i j k) [0..<m] ! k"
    by (rule nth_concat_uniform) (simp_all add: assms)
  also have "\<dots> = f i j k" using assms(3) by simp
  finally show ?thesis by (simp add: add.assoc)
qed

lemma length_concat3:
  "length (concat (map (\<lambda>i. concat (map (\<lambda>j. map (\<lambda>k. f i j k) [0..<m]) [0..<n])) [0..<b]))
   = b * (n * m)"
proof -
  have inner: "length (concat (map (\<lambda>j. map (\<lambda>k. f i' j k) [0..<m]) [0..<n])) = n * m" for i'
    by (rule length_concat_uniform) simp
  show ?thesis by (rule length_concat_uniform) (simp add: inner)
qed

lemma transpose_data_length [simp]: "length (transpose_data xs b m n) = b * (n * m)"
  unfolding transpose_data_def by (rule length_concat3)

lemma transpose_data_nth:
  "i < b \<Longrightarrow> j < n \<Longrightarrow> k < m \<Longrightarrow>
   transpose_data xs b m n ! (i * (n * m) + j * m + k) = xs ! (i * (m * n) + k * n + j)"
  unfolding transpose_data_def by (rule nth_concat3)

lemma bmm_data_length [simp]: "length (bmm_data xs ys b m k n) = b * (m * n)"
  unfolding bmm_data_def by (rule length_concat3)

lemma conv1x1_data_length [simp]: "length (conv1x1_data ws xs n c oc hw) = n * (oc * hw)"
  unfolding conv1x1_data_def by (rule length_concat3)

lemma linear_data_length [simp]: "length (linear_data xs ws bs rows i oc) = rows * oc"
  unfolding linear_data_def by (rule length_concat_uniform) simp

lemma repeat_data_length [simp]: "length (repeat_data xs s out) = prod_list out"
  by (simp add: repeat_data_def)

lemma broadcast_to_length [simp]: "length (broadcast_to t out) = prod_list out"
  by (simp add: broadcast_to_def)

lemma flat2_div_mod:
  fixes r s S :: nat
  assumes "s < S"
  shows "(r * S + s) div S = r" and "(r * S + s) mod S = s"
  using assms by simp_all

lemma repeat_rows_nth:
  assumes "r < R" "s < S"
  shows "repeat_data xs [B, S] [R, S] ! (r * S + s) = xs ! ((r mod B) * S + s)"
proof -
  have "r * S + s < R * S" using assms by (rule index_bound2)
  then show ?thesis
    using assms(2) by (simp add: repeat_data_def flat2_div_mod)
qed

lemma broadcast_same2_nth:
  assumes "r < R" "s < S"
  shows "broadcast_to \<lparr>shape = [R, S], data = xs\<rparr> [R, S] ! (r * S + s) = xs ! (r * S + s)"
proof -
  have lt: "r * S + s < R * S" using assms by (rule index_bound2)
  have "R = 1 \<Longrightarrow> r = 0" using assms(1) by simp
  moreover have "S = 1 \<Longrightarrow> s = 0" using assms(2) by simp
  ultimately show ?thesis
    using lt assms(2) by (auto simp: broadcast_to_def bindex_def pad_shape_def flat2_div_mod)
qed

section \<open>The softmax with masked entries\<close>

lemma xsoftmax_row_length [simp]: "length (xsoftmax_row xs) = length xs"
  by (cases xs) (simp_all add: Let_def)

lemma fold_xmax_NInf: "\<forall>x\<in>set xs. x = NInf \<Longrightarrow> fold xmax xs NInf = NInf"
  by (induction xs) simp_all

lemma sum_list_NaN: "xs \<noteq> [] \<Longrightarrow> \<forall>x\<in>set xs. x = NaN \<Longrightarrow> sum_list xs = NaN"
  by (induction xs) (simp_all add: plus_xreal_def)

lemma xsoftmax_row_all_masked:
  assumes "xs \<noteq> []" and "\<forall>x\<in>set xs. x = NInf"
  shows "xsoftmax_row xs = replicate (length xs) NaN"
proof (cases xs)
  case Nil
  with assms(1) show ?thesis by simp
next
  case (Cons x ys)
  have x: "x = NInf" and ys: "\<forall>y\<in>set ys. y = NInf" using assms(2) Cons by simp_all
  have m: "fold xmax ys NInf = NInf" by (rule fold_xmax_NInf[OF ys])
  have es: "map (\<lambda>y. xexp (xsub y NInf)) (NInf # ys) = replicate (Suc (length ys)) NaN"
    using ys by (induction ys) simp_all
  have "xsoftmax_row (NInf # ys)
        = map (\<lambda>e. xdiv e (sum_list (map (\<lambda>y. xexp (xsub y NInf)) (NInf # ys))))
              (map (\<lambda>y. xexp (xsub y NInf)) (NInf # ys))"
    unfolding xsoftmax_row.simps Let_def m ..
  also have "\<dots> = replicate (Suc (length ys)) NaN"
    unfolding es by simp
  finally show ?thesis unfolding Cons x by simp
qed

lemma fold_xmax_Fin: "fold xmax (map Fin xs) (Fin x) = Fin (fold max xs x)"
  by (induction xs arbitrary: x) simp_all

lemma sum_list_Fin: "sum_list (map Fin xs) = Fin (sum_list xs)"
  by (induction xs) (simp_all add: plus_xreal_def zero_xreal_def)

lemma xsoftmax_row_Fin: "xsoftmax_row (map Fin xs) = map Fin (softmax_row xs)"
proof (cases xs)
  case Nil
  then show ?thesis by simp
next
  case (Cons x ys)
  define m where "m = fold max ys x"
  have es: "map (\<lambda>y. xexp (xsub y (Fin m))) (map Fin zs) = map Fin (map (\<lambda>y. exp (y - m)) zs)" for zs
    by (induction zs) simp_all
  have pos: "sum_list (map (\<lambda>y. exp (y - m)) (x # ys)) \<noteq> 0"
  proof -
    have "0 \<le> sum_list (map (\<lambda>y. exp (y - m)) ys)" by (rule sum_list_nonneg) auto
    then have "0 < sum_list (map (\<lambda>y. exp (y - m)) (x # ys))" by (simp add: add_pos_nonneg)
    then show ?thesis by simp
  qed
  have dv: "map (\<lambda>e. xdiv e (Fin c)) (map Fin zs) = map Fin (map (\<lambda>e. e / c) zs)"
    if "c \<noteq> 0" for c zs using that by (induction zs) simp_all
  have "xsoftmax_row (map Fin (x # ys))
        = map (\<lambda>e. xdiv e (sum_list (map (\<lambda>y. xexp (xsub y (Fin m))) (map Fin (x # ys)))))
              (map (\<lambda>y. xexp (xsub y (Fin m))) (map Fin (x # ys)))"
    by (simp add: Let_def fold_xmax_Fin m_def)
  also have "\<dots> = map Fin (map (\<lambda>e. e / sum_list (map (\<lambda>y. exp (y - m)) (x # ys)))
                               (map (\<lambda>y. exp (y - m)) (x # ys)))"
    unfolding es sum_list_Fin by (rule dv[OF pos])
  also have "\<dots> = map Fin (softmax_row (x # ys))"
    by (simp add: Let_def m_def)
  finally show ?thesis unfolding Cons .
qed

lemma softmax_rows_at:
  assumes "length xs = R * S" "r < R" "s < S"
  shows "softmax_lanes f S (Suc 0) xs ! (r * S + s) = f (map (\<lambda>s'. xs ! (r * S + s')) [0..<S]) ! s"
  using softmax_lanes_at[where f=f and xs=xs and outer=R and n=S and inner="Suc 0" and ob=r and j=s and k=0]
    assms by simp

section \<open>What a valid call of forward returns\<close>

lemma masked_rows_nth:
  assumes "r < R" "s < S" "length ys = R * S"
  shows "map2 (\<lambda>c e. if c then NInf else e)
           (broadcast_to \<lparr>shape = [R, S], data = repeat_data ms [B, S] [R, S]\<rparr> [R, S])
           ys ! (r * S + s)
         = (if ms ! ((r mod B) * S + s) then NInf else ys ! (r * S + s))"
proof -
  have lt: "r * S + s < R * S" using assms(1,2) by (rule index_bound2)
  show ?thesis
    using lt assms(3)
    by (simp add: broadcast_same2_nth[OF assms(1,2)] repeat_rows_nth[OF assms(1,2)])
qed

lemma softmax_lanes_length [simp]: "length (softmax_lanes f n inner xs) = length xs"
  by (simp add: softmax_lanes_def)

lemma forward_trace_valid:
  assumes v: "valid_call self input sentence context B D H W C S"
  shows "\<exists>sv a wc ws.
     bnd (F_linear (linear_m self) sentence) (\<lambda>s.
       bnd (view s [Sz B, Sz D, Sz 1, Sz 1]) (\<lambda>s.
       bnd (repeat s [1, 1, H, W]) (\<lambda>s.
       bnd (mul input s) (\<lambda>p. conv1x1 (conv_sentence_vis self) p))))
       = Inr \<lparr>shape = [B, D, H, W], data = sv\<rparr> \<and>
     forward_trace self input sentence context =
       Inr (\<lparr>shape = [B * (H * W), S], data = softmax_lanes xsoftmax_row S (Suc 0) a\<rparr>,
            \<lparr>shape = [B, D, H, W], data = wc\<rparr>,
            \<lparr>shape = [B, D, H, W], data = ws\<rparr>,
            \<lparr>shape = [B, S, H, W],
             data = transpose_data (softmax_lanes xsoftmax_row S (Suc 0) a) B (H * W) S\<rparr>,
            \<lparr>shape = [B, D, H, W], data = softmax_lanes xsoftmax_row D (H * W) sv\<rparr>) \<and>
     length a = B * (H * W) * S \<and> length sv = B * (D * (H * W)) \<and>
     length wc = B * (D * (H * W)) \<and> length ws = B * (D * (H * W)) \<and>
     (\<forall>m. mask_t self = Some m \<longrightarrow>
        (\<forall>r<B * (H * W). \<forall>s<S. data m ! ((r mod B) * S + s) \<longrightarrow> a ! (r * S + s) = NInf))"
proof (cases "mask_t self")
  case None
  show ?thesis
    using v None
    apply (simp add: valid_call_def forward_trace_def op_defs)
    apply (rule exI, rule conjI, rule refl)
    apply (simp add: mult.assoc)
    done
next
  case (Some m)
  show ?thesis
    using v Some
    apply (simp add: valid_call_def forward_trace_def op_defs mult.commute[of "H * W" B])
    apply (rule exI, rule conjI, rule refl)
    apply (simp add: masked_rows_nth mult.assoc)
    done
qed

lemma forward_eq_trace:
  "forward_trace self input sentence context = Inr (a, wc, ws, wa, sa) \<Longrightarrow>
   forward self input sentence context = Inr (wc, ws, wa, sa)"
  by (simp add: forward_def)

section \<open>The softmax of finite entries\<close>

lemma finite_list_ex: "list_all is_finite xs \<Longrightarrow> \<exists>rs. xs = map Fin rs"
proof (induction xs)
  case Nil
  then show ?case by simp
next
  case (Cons a xs)
  then obtain rs where rs: "xs = map Fin rs" by auto
  from Cons.prems obtain r where r: "a = Fin r" by (cases a) simp_all
  have "a # xs = map Fin (r # rs)" by (simp add: r rs)
  then show ?case by (rule exI)
qed

lemma sum_Fin: "(\<Sum>j<(n::nat). Fin (f j)) = Fin (\<Sum>j<n. f j)"
  by (induction n) (simp_all add: plus_xreal_def zero_xreal_def)

lemma xsoftmax_lanes_distribution:
  assumes len: "length xs = outer * (n * inner)" and ob: "ob < outer" and k: "k < inner"
    and n: "0 < n"
    and fin: "\<forall>j<n. is_finite (xs ! (ob * (n * inner) + j * inner + k))"
  shows "(\<forall>j<n. \<exists>y. softmax_lanes xsoftmax_row n inner xs ! (ob * (n * inner) + j * inner + k) = Fin y
                    \<and> 0 \<le> y) \<and>
         (\<Sum>j<n. softmax_lanes xsoftmax_row n inner xs ! (ob * (n * inner) + j * inner + k)) = Fin 1"
proof -
  define l where "l = map (\<lambda>j'. xs ! (ob * (n * inner) + j' * inner + k)) [0..<n]"
  have "list_all is_finite l" using fin by (simp add: l_def list_all_length)
  then obtain rs where rs: "l = map Fin rs" using finite_list_ex by blast
  have lrs: "length rs = n" using arg_cong[OF rs, of length] by (simp add: l_def)
  define ys where "ys = softmax_row rs"
  have lys: "length ys = n" by (simp add: ys_def lrs)
  have ne: "rs \<noteq> []" using lrs n by auto
  have at: "softmax_lanes xsoftmax_row n inner xs ! (ob * (n * inner) + j * inner + k) = Fin (ys ! j)"
    if "j < n" for j
    unfolding softmax_lanes_at[OF len ob that k] l_def[symmetric] rs xsoftmax_row_Fin ys_def
    using that lrs by simp
  have pos: "0 < ys ! j" if "j < n" for j
  proof -
    have "ys ! j \<in> set (softmax_row rs)" using that lys by (simp add: ys_def)
    then show ?thesis by (rule softmax_row_pos)
  qed
  have "(\<Sum>j<n. softmax_lanes xsoftmax_row n inner xs ! (ob * (n * inner) + j * inner + k))
        = (\<Sum>j<n. Fin (ys ! j))"
    by (rule sum.cong) (simp_all add: at)
  also have "\<dots> = Fin (\<Sum>j<n. ys ! j)" by (rule sum_Fin)
  also have "(\<Sum>j<n. ys ! j) = sum_list ys"
    using lys by (simp add: sum_list_sum_nth atLeast0LessThan)
  also have "sum_list ys = 1" unfolding ys_def using ne by (rule softmax_row_sum)
  finally have total: "(\<Sum>j<n. softmax_lanes xsoftmax_row n inner xs ! (ob * (n * inner) + j * inner + k)) = Fin 1" .
  show ?thesis
    using at pos total by (auto intro: less_imp_le)
qed

lemma xsoftmax_rows_distribution:
  assumes "length xs = R * n" "r < R" "0 < n" "\<forall>j<n. is_finite (xs ! (r * n + j))"
  shows "(\<forall>j<n. \<exists>y. softmax_lanes xsoftmax_row n (Suc 0) xs ! (r * n + j) = Fin y \<and> 0 \<le> y) \<and>
         (\<Sum>j<n. softmax_lanes xsoftmax_row n (Suc 0) xs ! (r * n + j)) = Fin 1"
  using xsoftmax_lanes_distribution[where xs=xs and outer=R and n=n and inner="Suc 0" and ob=r and k=0]
    assms by simp

section \<open>Evaluating a call on given tensors\<close>

lemma upt_zero_numeral: "[0..<numeral n] = 0 # [Suc 0..<numeral n]"
  by (simp only: upt_rec[of 0 "numeral n"] zero_less_numeral if_True)

lemma upt_one_numeral:
  "[Suc 0..<numeral n] = (if Suc 0 < numeral n then Suc 0 # [2..<numeral n] else [])"
  by (simp only: upt_rec[of "Suc 0" "numeral n"] numeral_2_eq_2)

lemmas eval_defs = forward_def forward_trace_def func_attention_def func_attention_trace_def
  op_defs transpose_data_def bmm_data_def conv1x1_data_def linear_data_def repeat_data_def
  broadcast_to_def bindex_def softmax_lanes_def lane_def scale_def
  GlobalAttentionGeneral_def applyMask_def
  plus_xreal_def zero_xreal_def times_xreal_def upt_zero_numeral upt_one_numeral

section \<open>What a valid call of func_attention returns\<close>

lemma func_attention_trace_valid:
  assumes v: "valid_attention_call query context B D Q ih iw"
  shows "\<exists>s7 wc.
      bnd (view context [Sz B, Infer, Sz (ih * iw)]) (\<lambda>c.
        bnd (transpose_1_2 c) (\<lambda>cT.
        bnd (bmm cT query) (\<lambda>a. view a [Sz (B * (ih * iw)), Sz Q])))
        = Inr \<lparr>shape = [B * (ih * iw), Q], data = s7\<rparr> \<and>
      func_attention_trace query context gamma1 =
      Inr (\<lparr>shape = [B * (ih * iw), Q], data = s7\<rparr>,
           \<lparr>shape = [B * (ih * iw), Q], data = softmax_lanes xsoftmax_row Q (Suc 0) s7\<rparr>,
           \<lparr>shape = [B * Q, ih * iw],
            data = softmax_lanes xsoftmax_row (ih * iw) (Suc 0)
                     (map (\<lambda>x. x * Fin gamma1)
                        (transpose_data (softmax_lanes xsoftmax_row Q (Suc 0) s7) B (ih * iw) Q))\<rparr>,
           \<lparr>shape = [B, D, Q], data = wc\<rparr>,
           \<lparr>shape = [B, Q, ih, iw],
            data = softmax_lanes xsoftmax_row (ih * iw) (Suc 0)
                     (map (\<lambda>x. x * Fin gamma1)
                        (transpose_data (softmax_lanes xsoftmax_row Q (Suc 0) s7) B (ih * iw) Q))\<rparr>) \<and>
      length s7 = B * (ih * iw) * Q \<and> length wc = B * (D * Q)"
  using v
  by (simp add: valid_attention_call_def func_attention_trace_def op_defs scale_def)

lemma func_attention_eq_trace:
  "func_attention_trace query context gamma1 = Inr (a7, a8, a9, wc, am) \<Longrightarrow>
   func_attention query context gamma1 = Inr (wc, am)"
  by (simp add: func_attention_def)

section \<open>The example calls\<close>

lemma ex_valid_call: "valid_call ex_layer ex_input ex_sentence ex_context 2 4 3 3 6 5"
  by (simp add: valid_call_def ex_layer_def ex_input_def ex_sentence_def ex_context_def
      GlobalAttentionGeneral_def)

lemma fa_valid: "valid_attention_call fa_query fa_context 1 1 3 1 2"
  by (simp add: valid_attention_call_def fa_query_def fa_context_def)

lemma fa_trace:
  "func_attention_trace fa_query fa_context 1 =
     Inr (\<lparr>shape = [2, 3], data = [Fin 0, Fin 0, Fin 0, Fin 0, Fin 0, Fin 0]\<rparr>,
          \<lparr>shape = [2, 3],
           data = [Fin (1 / 3), Fin (1 / 3), Fin (1 / 3), Fin (1 / 3), Fin (1 / 3), Fin (1 / 3)]\<rparr>,
          \<lparr>shape = [3, 2],
           data = [Fin (1 / 2), Fin (1 / 2), Fin (1 / 2), Fin (1 / 2), Fin (1 / 2), Fin (1 / 2)]\<rparr>,
          \<lparr>shape = [1, 1, 3], data = [Fin 0, Fin 0, Fin 0]\<rparr>,
          \<lparr>shape = [1, 3, 1, 2],
           data = [Fin (1 / 2), Fin (1 / 2), Fin (1 / 2), Fin (1 / 2), Fin (1 / 2), Fin (1 / 2)]\<rparr>)"
  by (simp add: fa_query_def fa_context_def eval_defs)

lemma full_valid_call: "valid_call full_layer bug_input bug_sentence bug_context 2 1 1 2 1 2"
  by (simp add: valid_call_def full_layer_def full_mask_def bug_input_def bug_sentence_def
      bug_context_def GlobalAttentionGeneral_def applyMask_def)

lemma gate_valid_call: "valid_call gate_layer gate_input gate_sentence gate_context 1 2 1 1 1 1"
  by (simp add: valid_call_def gate_layer_def gate_input_def gate_sentence_def gate_context_def
      GlobalAttentionGeneral_def)

lemma gate_output:
  "bnd (F_linear (linear_m gate_layer) gate_sentence) (\<lambda>s.
     bnd (view s [Sz 1, Sz 2, Sz 1, Sz 1]) (\<lambda>s.
     bnd (repeat s [1, 1, 1, 1]) (\<lambda>s.
     bnd (mul gate_input s) (\<lambda>p. conv1x1 (conv_sentence_vis gate_layer) p))))
   = Inr \<lparr>shape = [1, 2, 1, 1], data = [Fin 1, Fin 2]\<rparr>"
  by (simp add: gate_layer_def gate_input_def gate_sentence_def eval_defs)

section \<open>Sharpening a softmax of real numbers\<close>

text \<open>
  Over the real numbers, scaling a lane that is not constant by a larger positive factor
  strictly increases the largest weight of its softmax. (In a floating-point format the
  largest weight is rounded, and reaches 1 for a large factor.)
\<close>

lemma sum_list_strict_mono_ex:
  fixes f g :: "'a \<Rightarrow> real"
  assumes "\<forall>x\<in>set xs. f x \<le> g x" and "\<exists>x\<in>set xs. f x < g x"
  shows "sum_list (map f xs) < sum_list (map g xs)"
  using assms
proof (induction xs)
  case Nil
  then show ?case by simp
next
  case (Cons a xs)
  have le: "sum_list (map f xs) \<le> sum_list (map g xs)"
    using Cons.prems(1) by (intro sum_list_mono) simp
  show ?case
  proof (cases "f a < g a")
    case True
    then show ?thesis using le by simp
  next
    case False
    then have "\<exists>x\<in>set xs. f x < g x" using Cons.prems(2) by auto
    then have "sum_list (map f xs) < sum_list (map g xs)"
      using Cons.IH Cons.prems(1) by simp
    moreover have "f a \<le> g a" using Cons.prems(1) by simp
    ultimately show ?thesis by simp
  qed
qed

lemma softmax_row_peak:
  assumes g: "0 < g" and ne: "xs \<noteq> []"
  shows "Max (set (softmax_row (map (\<lambda>x. x * g) xs)))
         = 1 / sum_list (map (\<lambda>x. exp ((x - Max (set xs)) * g)) xs)"
proof -
  define Z where "Z = sum_list (map exp (map (\<lambda>x. x * g) xs))"
  define f where "f = (\<lambda>x. exp (x * g) / Z)"
  define M where "M = Max (set xs)"
  have Zpos: "0 < Z" unfolding Z_def using ne by (intro sum_list_exp_pos) simp
  have "softmax_row (map (\<lambda>x. x * g) xs) = map f xs"
    by (simp add: softmax_row_closed Z_def f_def comp_def)
  then have "Max (set (softmax_row (map (\<lambda>x. x * g) xs))) = Max (f ` set xs)" by simp
  also have "\<dots> = f M"
  proof -
    have "mono f"
      unfolding f_def using g Zpos by (intro monoI divide_right_mono) simp_all
    then show ?thesis
      unfolding M_def using ne by (intro mono_Max_commute[symmetric]) simp_all
  qed
  also have "\<dots> = 1 / (Z / exp (M * g))" by (simp add: f_def)
  also have "Z / exp (M * g) = sum_list (map (\<lambda>x. exp ((x - M) * g)) xs)"
  proof -
    have "sum_list (map (\<lambda>x. exp (x * g)) xs) / c = sum_list (map (\<lambda>x. exp (x * g) / c) xs)"
      for c :: real by (induction xs) (simp_all add: add_divide_distrib)
    then show ?thesis
      by (simp add: Z_def comp_def exp_diff left_diff_distrib)
  qed
  finally show ?thesis unfolding M_def .
qed

lemma softmax_row_sharpening:
  assumes g: "0 < g1" "g1 < g2" and d: "a \<in> set xs" "b \<in> set xs" "a \<noteq> b"
  shows "Max (set (softmax_row (map (\<lambda>x. x * g1) xs)))
         < Max (set (softmax_row (map (\<lambda>x. x * g2) xs)))"
proof -
  define M where "M = Max (set xs)"
  have ne: "xs \<noteq> []" using d(1) by auto
  have le: "x \<le> M" if "x \<in> set xs" for x unfolding M_def using that by simp
  have "\<exists>x\<in>set xs. x < M"
  proof (cases "a = M")
    case True
    then have "b < M" using le[OF d(2)] d(3) by simp
    then show ?thesis using d(2) by blast
  next
    case False
    then have "a < M" using le[OF d(1)] by simp
    then show ?thesis using d(1) by blast
  qed
  then obtain y where y: "y \<in> set xs" "y < M" by blast
  have mono: "exp ((x - M) * g2) \<le> exp ((x - M) * g1)" if "x \<in> set xs" for x
    using le[OF that] g by (simp add: mult_left_mono_neg)
  have strict: "exp ((y - M) * g2) < exp ((y - M) * g1)"
    using y(2) g by (simp add: mult_strict_left_mono_neg)
  have lt: "sum_list (map (\<lambda>x. exp ((x - M) * g2)) xs) < sum_list (map (\<lambda>x. exp ((x - M) * g1)) xs)"
    by (rule sum_list_strict_mono_ex) (use mono strict y(1) in auto)
  have pos: "0 < sum_list (map (\<lambda>x. exp ((x - M) * g2)) xs)"
  proof -
    have "0 < sum_list (map exp (map (\<lambda>x. (x - M) * g2) xs))"
      using ne by (intro sum_list_exp_pos) simp
    then show ?thesis by (simp add: comp_def)
  qed
  have "0 < g2" using g by simp
  show ?thesis
    unfolding softmax_row_peak[OF g(1) ne] softmax_row_peak[OF \<open>0 < g2\<close> ne] M_def[symmetric]
    using lt pos by (simp add: frac_less2)
qed

section \<open>The mask and the rows of the similarity tensor\<close>

text \<open>
  Claim C1. The claim: the stored mask of shape \<open>[B, S]\<close> is repeated to
  \<open>[B * (H * W), S]\<close> so that each row of the flattened similarity tensor is masked by
  the mask row of its own batch element, and every masked position has attention weight 0
  after the softmax. The code repeats the whole mask \<open>H * W\<close> times, so row \<open>r\<close> of
  the flattened tensor, which belongs to batch element \<open>r div (H * W)\<close>, is masked by
  mask row \<open>r mod B\<close>. On the call below (two batch elements, two query positions, the
  mask marking context position 0 of batch element 0 only), \<open>word_attn[0, 0, 0, 1]\<close>, a
  masked position of batch element 0, has weight 1/2, and \<open>word_attn[1, 0, 0, 0]\<close>, which
  the mask does not mark, has weight 0.
\<close>

theorem mask_rows_misaligned:
  "forward bug_layer bug_input bug_sentence bug_context =
     Inr (\<lparr>shape = [2, 1, 1, 2], data = [Fin 0, Fin 0, Fin 0, Fin 0]\<rparr>,
          \<lparr>shape = [2, 1, 1, 2], data = [Fin 0, Fin 0, Fin 0, Fin 0]\<rparr>,
          \<lparr>shape = [2, 2, 1, 2],
           data = [Fin 0, Fin (1 / 2), Fin 1, Fin (1 / 2),
                   Fin 0, Fin (1 / 2), Fin 1, Fin (1 / 2)]\<rparr>,
          \<lparr>shape = [2, 1, 1, 2], data = [Fin 1, Fin 1, Fin 1, Fin 1]\<rparr>)"
  by (simp add: bug_layer_def bug_input_def bug_sentence_def bug_context_def eval_defs)

section \<open>The axes of the two softmax stages of func_attention\<close>

text \<open>
  Claim C2. The claim: the first softmax ("Eq. 8") runs over the source axis \<open>S\<close>
  independently per query position, so that both stages give non-negative weights that
  sum to 1 along \<open>S\<close> for each query position. On the call below (\<open>Q = 3\<close>,
  \<open>S = 2\<close>) each first-stage weight is 1/3, and the two weights of query position 0
  along \<open>S\<close> sum to 2/3.
\<close>

theorem first_softmax_over_source_counterexample:
  "func_attention_trace fa_query fa_context 1 =
     Inr (\<lparr>shape = [2, 3], data = [Fin 0, Fin 0, Fin 0, Fin 0, Fin 0, Fin 0]\<rparr>,
          \<lparr>shape = [2, 3],
           data = [Fin (1 / 3), Fin (1 / 3), Fin (1 / 3), Fin (1 / 3), Fin (1 / 3), Fin (1 / 3)]\<rparr>,
          \<lparr>shape = [3, 2],
           data = [Fin (1 / 2), Fin (1 / 2), Fin (1 / 2), Fin (1 / 2), Fin (1 / 2), Fin (1 / 2)]\<rparr>,
          \<lparr>shape = [1, 1, 3], data = [Fin 0, Fin 0, Fin 0]\<rparr>,
          \<lparr>shape = [1, 3, 1, 2],
           data = [Fin (1 / 2), Fin (1 / 2), Fin (1 / 2), Fin (1 / 2), Fin (1 / 2), Fin (1 / 2)]\<rparr>) \<and>
   elem \<lparr>shape = [2, 3],
         data = [Fin (1 / 3), Fin (1 / 3), Fin (1 / 3), Fin (1 / 3), Fin (1 / 3), Fin (1 / 3)]\<rparr> [0, 0]
   + elem \<lparr>shape = [2, 3],
           data = [Fin (1 / 3), Fin (1 / 3), Fin (1 / 3), Fin (1 / 3), Fin (1 / 3), Fin (1 / 3)]\<rparr> [1, 0]
   \<noteq> Fin 1"
  by (simp add: fa_query_def fa_context_def eval_defs elem_def)

text \<open>
  Claim C2, as the code has it. The first \<^verbatim>\<open>nn.Softmax()\<close> is applied to the
  similarities viewed with shape \<open>[B * S, Q]\<close>, so it normalises over the query axis:
  for every valid call, every batch element \<open>b\<close> and context position \<open>s\<close>, row
  \<open>b * S + s\<close> of the first-stage weights is the softmax of that row of the
  similarities. The second is applied to the view of shape \<open>[B * Q, S]\<close>: for every
  batch element \<open>b\<close> and query position \<open>q\<close>, row \<open>b * Q + q\<close> of the second-stage
  weights is the softmax along \<open>S\<close> of the first-stage weights of \<open>q\<close> times
  \<open>gamma1\<close>, and these are the entries of the attention map returned. When every
  similarity is finite (no infinity or NaN among them, which in the program also needs that
  no product overflowed), the first-stage weights are non-negative and sum to 1 along
  \<open>Q\<close> for each batch element and context position, and the second-stage weights are
  non-negative and sum to 1 along \<open>S\<close> for each batch element and query position.
  The sums are exact here because the arithmetic of the model is; in the program they hold
  up to rounding.
\<close>

theorem softmax_axes:
  assumes v: "valid_attention_call query context B D Q ih iw"
  shows "\<exists>attn7 attn8 attn9 weightedContext attn_map.
     func_attention_trace query context gamma1 =
       Inr (attn7, attn8, attn9, weightedContext, attn_map) \<and>
     bnd (view context [Sz B, Infer, Sz (ih * iw)]) (\<lambda>c.
       bnd (transpose_1_2 c) (\<lambda>cT.
       bnd (bmm cT query) (\<lambda>a. view a [Sz (B * (ih * iw)), Sz Q]))) = Inr attn7 \<and>
     shape attn7 = [B * (ih * iw), Q] \<and> shape attn8 = [B * (ih * iw), Q] \<and>
     shape attn9 = [B * Q, ih * iw] \<and> data attn_map = data attn9 \<and>
     (\<forall>b<B. \<forall>s<ih * iw. \<forall>q<Q.
        elem attn8 [b * (ih * iw) + s, q] =
          xsoftmax_row (map (\<lambda>q'. elem attn7 [b * (ih * iw) + s, q']) [0..<Q]) ! q) \<and>
     (\<forall>b<B. \<forall>q<Q. \<forall>s<ih * iw.
        elem attn9 [b * Q + q, s] =
          xsoftmax_row (map (\<lambda>s'. elem attn8 [b * (ih * iw) + s', q] * Fin gamma1) [0..<ih * iw]) ! s) \<and>
     (finite_tensor attn7 \<longrightarrow>
        (\<forall>b<B. \<forall>s<ih * iw.
           (\<forall>q<Q. \<exists>x. elem attn8 [b * (ih * iw) + s, q] = Fin x \<and> 0 \<le> x) \<and>
           (\<Sum>q<Q. elem attn8 [b * (ih * iw) + s, q]) = Fin 1) \<and>
        (\<forall>b<B. \<forall>q<Q.
           (\<forall>s<ih * iw. \<exists>x. elem attn9 [b * Q + q, s] = Fin x \<and> 0 \<le> x) \<and>
           (\<Sum>s<ih * iw. elem attn9 [b * Q + q, s]) = Fin 1))"
proof -
  define S where "S = ih * iw"
  from func_attention_trace_valid[OF v, of gamma1] obtain s7 wc where
    ch: "bnd (view context [Sz B, Infer, Sz S]) (\<lambda>c.
           bnd (transpose_1_2 c) (\<lambda>cT.
           bnd (bmm cT query) (\<lambda>a. view a [Sz (B * S), Sz Q])))
         = Inr \<lparr>shape = [B * S, Q], data = s7\<rparr>"
    and tr0: "func_attention_trace query context gamma1 =
      Inr (\<lparr>shape = [B * S, Q], data = s7\<rparr>,
           \<lparr>shape = [B * S, Q], data = softmax_lanes xsoftmax_row Q (Suc 0) s7\<rparr>,
           \<lparr>shape = [B * Q, S],
            data = softmax_lanes xsoftmax_row S (Suc 0)
                     (map (\<lambda>x. x * Fin gamma1)
                        (transpose_data (softmax_lanes xsoftmax_row Q (Suc 0) s7) B S Q))\<rparr>,
           \<lparr>shape = [B, D, Q], data = wc\<rparr>,
           \<lparr>shape = [B, Q, ih, iw],
            data = softmax_lanes xsoftmax_row S (Suc 0)
                     (map (\<lambda>x. x * Fin gamma1)
                        (transpose_data (softmax_lanes xsoftmax_row Q (Suc 0) s7) B S Q))\<rparr>)"
    and l7: "length s7 = B * S * Q"
    unfolding S_def by blast
  define d8 where "d8 = softmax_lanes xsoftmax_row Q (Suc 0) s7"
  define t9 where "t9 = map (\<lambda>x. x * Fin gamma1) (transpose_data d8 B S Q)"
  define d9 where "d9 = softmax_lanes xsoftmax_row S (Suc 0) t9"
  define a7 :: "xreal tensor" where "a7 = \<lparr>shape = [B * S, Q], data = s7\<rparr>"
  define a8 :: "xreal tensor" where "a8 = \<lparr>shape = [B * S, Q], data = d8\<rparr>"
  define a9 :: "xreal tensor" where "a9 = \<lparr>shape = [B * Q, S], data = d9\<rparr>"
  define am :: "xreal tensor" where "am = \<lparr>shape = [B, Q, ih, iw], data = d9\<rparr>"
  have tr: "func_attention_trace query context gamma1 =
              Inr (a7, a8, a9, \<lparr>shape = [B, D, Q], data = wc\<rparr>, am)"
    unfolding tr0 a7_def a8_def a9_def am_def d9_def t9_def d8_def ..
  have pos: "0 < Q" "0 < S" using v by (simp_all add: valid_attention_call_def S_def)
  have l8: "length d8 = B * S * Q" by (simp add: d8_def l7)
  have l9: "length t9 = B * Q * S" by (simp add: t9_def mult.commute mult.left_commute)
  have e7: "elem a7 [r, q] = s7 ! (r * Q + q)" for r q by (simp add: elem_def a7_def)
  have e8: "elem a8 [r, q] = d8 ! (r * Q + q)" for r q by (simp add: elem_def a8_def)
  have e9: "elem a9 [r, s] = d9 ! (r * S + s)" for r s by (simp add: elem_def a9_def)
  have row8: "b * S + s < B * S" if "b < B" "s < S" for b s
    using that by (rule index_bound2)
  have row9: "b * Q + q < B * Q" if "b < B" "q < Q" for b q
    using that by (rule index_bound2)
  have p8: "elem a8 [b * S + s, q] = xsoftmax_row (map (\<lambda>q'. elem a7 [b * S + s, q']) [0..<Q]) ! q"
    if "b < B" "s < S" "q < Q" for b s q
    unfolding e8 e7 d8_def using l7 row8[OF that(1,2)] that(3) by (rule softmax_rows_at)
  have tk: "t9 ! ((b * Q + q) * S + k) = elem a8 [b * S + k, q] * Fin gamma1"
    if "b < B" "q < Q" "k < S" for b q k
  proof -
    have "(b * Q + q) * S + k < B * Q * S" using row9[OF that(1,2)] that(3) by (rule index_bound2)
    then have "t9 ! ((b * Q + q) * S + k) = transpose_data d8 B S Q ! ((b * Q + q) * S + k) * Fin gamma1"
      by (simp add: t9_def mult.commute mult.left_commute)
    moreover have "(b * Q + q) * S + k = b * (Q * S) + q * S + k" by (simp add: algebra_simps)
    moreover have "b * (S * Q) + k * Q + q = (b * S + k) * Q + q" by (simp add: algebra_simps)
    ultimately show ?thesis
      using transpose_data_nth[OF that, of d8] by (simp add: e8)
  qed
  have p9: "elem a9 [b * Q + q, s]
            = xsoftmax_row (map (\<lambda>s'. elem a8 [b * S + s', q] * Fin gamma1) [0..<S]) ! s"
    if "b < B" "q < Q" "s < S" for b q s
  proof -
    have "elem a9 [b * Q + q, s] = xsoftmax_row (map (\<lambda>s'. t9 ! ((b * Q + q) * S + s')) [0..<S]) ! s"
      unfolding e9 d9_def using l9 row9[OF that(1,2)] that(3) by (rule softmax_rows_at)
    also have "map (\<lambda>s'. t9 ! ((b * Q + q) * S + s')) [0..<S]
               = map (\<lambda>s'. elem a8 [b * S + s', q] * Fin gamma1) [0..<S]"
      by (simp add: tk[OF that(1,2)])
    finally show ?thesis .
  qed
  have fin: "(\<forall>b<B. \<forall>s<S.
           (\<forall>q<Q. \<exists>x. elem a8 [b * S + s, q] = Fin x \<and> 0 \<le> x) \<and>
           (\<Sum>q<Q. elem a8 [b * S + s, q]) = Fin 1) \<and>
        (\<forall>b<B. \<forall>q<Q.
           (\<forall>s<S. \<exists>x. elem a9 [b * Q + q, s] = Fin x \<and> 0 \<le> x) \<and>
           (\<Sum>s<S. elem a9 [b * Q + q, s]) = Fin 1)"
    if f7: "finite_tensor a7"
  proof -
    have f7': "is_finite (s7 ! i)" if "i < B * S * Q" for i
      using f7 that l7 by (simp add: finite_tensor_def a7_def list_all_length)
    have s8: "(\<forall>q<Q. \<exists>x. elem a8 [b * S + s, q] = Fin x \<and> 0 \<le> x) \<and>
              (\<Sum>q<Q. elem a8 [b * S + s, q]) = Fin 1" if "b < B" "s < S" for b s
    proof -
      have "\<forall>j<Q. is_finite (s7 ! ((b * S + s) * Q + j))"
        using index_bound2[OF row8[OF that]] f7' by simp
      from xsoftmax_rows_distribution[OF l7 row8[OF that] pos(1) this]
      show ?thesis unfolding e8 d8_def .
    qed
    have s9: "(\<forall>s<S. \<exists>x. elem a9 [b * Q + q, s] = Fin x \<and> 0 \<le> x) \<and>
              (\<Sum>s<S. elem a9 [b * Q + q, s]) = Fin 1" if "b < B" "q < Q" for b q
    proof -
      have "\<forall>j<S. is_finite (t9 ! ((b * Q + q) * S + j))"
      proof (intro allI impI)
        fix j assume j: "j < S"
        from s8[OF that(1) j] that(2) obtain x where "elem a8 [b * S + j, q] = Fin x" by blast
        then show "is_finite (t9 ! ((b * Q + q) * S + j))"
          by (simp add: tk[OF that j] times_xreal_def)
      qed
      from xsoftmax_rows_distribution[OF l9 row9[OF that] pos(2) this]
      show ?thesis unfolding e9 d9_def .
    qed
    show ?thesis using s8 s9 by blast
  qed
  have sh: "shape a7 = [B * S, Q]" "shape a8 = [B * S, Q]" "shape a9 = [B * Q, S]"
    "data am = data a9"
    by (simp_all add: a7_def a8_def a9_def am_def)
  have ch': "bnd (view context [Sz B, Infer, Sz S]) (\<lambda>c.
           bnd (transpose_1_2 c) (\<lambda>cT.
           bnd (bmm cT query) (\<lambda>a. view a [Sz (B * S), Sz Q]))) = Inr a7"
    unfolding ch a7_def ..
  have c1: "\<forall>b<B. \<forall>s<S. \<forall>q<Q.
        elem a8 [b * S + s, q] = xsoftmax_row (map (\<lambda>q'. elem a7 [b * S + s, q']) [0..<Q]) ! q"
    using p8 by blast
  have c2: "\<forall>b<B. \<forall>q<Q. \<forall>s<S.
        elem a9 [b * Q + q, s] =
          xsoftmax_row (map (\<lambda>s'. elem a8 [b * S + s', q] * Fin gamma1) [0..<S]) ! s"
    using p9 by blast
  have c3: "finite_tensor a7 \<longrightarrow>
        (\<forall>b<B. \<forall>s<S.
           (\<forall>q<Q. \<exists>x. elem a8 [b * S + s, q] = Fin x \<and> 0 \<le> x) \<and>
           (\<Sum>q<Q. elem a8 [b * S + s, q]) = Fin 1) \<and>
        (\<forall>b<B. \<forall>q<Q.
           (\<forall>s<S. \<exists>x. elem a9 [b * Q + q, s] = Fin x \<and> 0 \<le> x) \<and>
           (\<Sum>s<S. elem a9 [b * Q + q, s]) = Fin 1)"
    using fin by (rule impI)
  show ?thesis
    unfolding S_def[symmetric]
    apply (rule exI[where x = a7], rule exI[where x = a8], rule exI[where x = a9])
    apply (rule exI[where x = "\<lparr>shape = [B, D, Q], data = wc\<rparr>"], rule exI[where x = am])
    apply (intro conjI tr ch' sh c1 c2 c3)
    done
qed

theorem softmax_axes_witness:
  "valid_attention_call fa_query fa_context 1 1 3 1 2 \<and>
   (\<exists>attn7 attn8 attn9 weightedContext attn_map.
     func_attention_trace fa_query fa_context 1 =
       Inr (attn7, attn8, attn9, weightedContext, attn_map) \<and>
     finite_tensor attn7 \<and>
     (\<forall>b<1. \<forall>s<1 * 2.
        (\<forall>q<3. \<exists>x. elem attn8 [b * (1 * 2) + s, q] = Fin x \<and> 0 \<le> x) \<and>
        (\<Sum>q<3. elem attn8 [b * (1 * 2) + s, q]) = Fin 1) \<and>
     (\<forall>b<1. \<forall>q<3.
        (\<forall>s<1 * 2. \<exists>x. elem attn9 [b * 3 + q, s] = Fin x \<and> 0 \<le> x) \<and>
        (\<Sum>s<1 * 2. elem attn9 [b * 3 + q, s]) = Fin 1))"
proof -
  from softmax_axes[OF fa_valid, of 1] obtain a7 a8 a9 wc am where
    tr: "func_attention_trace fa_query fa_context 1 = Inr (a7, a8, a9, wc, am)"
    and imp: "finite_tensor a7 \<longrightarrow>
        (\<forall>b<1. \<forall>s<1 * 2.
           (\<forall>q<3. \<exists>x. elem a8 [b * (1 * 2) + s, q] = Fin x \<and> 0 \<le> x) \<and>
           (\<Sum>q<3. elem a8 [b * (1 * 2) + s, q]) = Fin 1) \<and>
        (\<forall>b<1. \<forall>q<3.
           (\<forall>s<1 * 2. \<exists>x. elem a9 [b * 3 + q, s] = Fin x \<and> 0 \<le> x) \<and>
           (\<Sum>s<1 * 2. elem a9 [b * 3 + q, s]) = Fin 1)"
    by (elim exE conjE) (rule that, assumption+)
  have f: "finite_tensor a7" using tr by (auto simp: fa_trace finite_tensor_def)
  from imp f have c: "(\<forall>b<1. \<forall>s<1 * 2.
           (\<forall>q<3. \<exists>x. elem a8 [b * (1 * 2) + s, q] = Fin x \<and> 0 \<le> x) \<and>
           (\<Sum>q<3. elem a8 [b * (1 * 2) + s, q]) = Fin 1) \<and>
        (\<forall>b<1. \<forall>q<3.
           (\<forall>s<1 * 2. \<exists>x. elem a9 [b * 3 + q, s] = Fin x \<and> 0 \<le> x) \<and>
           (\<Sum>s<1 * 2. elem a9 [b * 3 + q, s]) = Fin 1)" by (rule mp)
  show ?thesis
    apply (rule conjI[OF fa_valid])
    apply (rule exI[where x = a7], rule exI[where x = a8], rule exI[where x = a9])
    apply (rule exI[where x = wc], rule exI[where x = am])
    apply (intro conjI tr f c[THEN conjunct1] c[THEN conjunct2])
    done
qed

section \<open>A fully masked row\<close>

text \<open>
  Claim C3. The claim: for a batch row whose mask is all true, the attention distribution
  after the softmax stays numerically stable (near uniform or a defined fallback) and
  contains no NaN. On the call below the mask marks both context positions, and every
  entry of \<open>word_attn\<close> (and of \<open>weightedContext\<close>) is NaN.
\<close>

theorem fully_masked_row_counterexample:
  "forward nan_layer nan_input nan_sentence nan_context =
     Inr (\<lparr>shape = [1, 1, 1, 1], data = [NaN]\<rparr>,
          \<lparr>shape = [1, 1, 1, 1], data = [Fin 0]\<rparr>,
          \<lparr>shape = [1, 2, 1, 1], data = [NaN, NaN]\<rparr>,
          \<lparr>shape = [1, 1, 1, 1], data = [Fin 1]\<rparr>)"
  by (simp add: nan_layer_def nan_input_def nan_sentence_def nan_context_def eval_defs)

text \<open>
  Claim C3, as the code has it. \<^verbatim>\<open>forward\<close> has no fallback for a fully masked row:
  for every valid call with a mask whose row \<open>b\<close> is all true, at every query position
  \<open>(h, w)\<close> of batch element \<open>b\<close> whose row of the flattened similarity tensor is
  masked with the mask row of \<open>b\<close> itself, all \<open>S\<close> attention weights
  \<open>word_attn[b, s, h, w]\<close> are NaN. The row of that query position is row
  \<open>b * (H * W) + (h * W + w)\<close>, and it is masked with the mask row of \<open>b\<close> when
  this number is \<open>b\<close> modulo \<open>B\<close>: always when \<open>B = 1\<close> or \<open>H * W = 1\<close>.
  Nothing is said here about the other query positions, where another mask row is applied
  (claim C1).
\<close>

theorem fully_masked_row_gives_nan:
  assumes v: "valid_call self input sentence context B D H W C S"
    and m: "mask_t self = Some m"
    and b: "b < B"
    and row: "\<forall>s<S. elem m [b, s]"
  shows "\<exists>weightedContext weightedSentence word_attn sent_att.
     forward self input sentence context =
       Inr (weightedContext, weightedSentence, word_attn, sent_att) \<and>
     (\<forall>h<H. \<forall>w<W. (b * (H * W) + (h * W + w)) mod B = b \<longrightarrow>
        (\<forall>s<S. elem word_attn [b, s, h, w] = NaN))"
proof -
  from forward_trace_valid[OF v] obtain sv a wc ws where
    tr: "forward_trace self input sentence context =
       Inr (\<lparr>shape = [B * (H * W), S], data = softmax_lanes xsoftmax_row S (Suc 0) a\<rparr>,
            \<lparr>shape = [B, D, H, W], data = wc\<rparr>,
            \<lparr>shape = [B, D, H, W], data = ws\<rparr>,
            \<lparr>shape = [B, S, H, W],
             data = transpose_data (softmax_lanes xsoftmax_row S (Suc 0) a) B (H * W) S\<rparr>,
            \<lparr>shape = [B, D, H, W], data = softmax_lanes xsoftmax_row D (H * W) sv\<rparr>)"
    and len: "length a = B * (H * W) * S"
    and msk: "\<forall>m. mask_t self = Some m \<longrightarrow>
        (\<forall>r<B * (H * W). \<forall>s<S. data m ! ((r mod B) * S + s) \<longrightarrow> a ! (r * S + s) = NInf)"
    by (elim exE conjE) (rule that, assumption+)
  have shm: "shape m = [B, S]" using v m by (simp add: valid_call_def)
  have posS: "0 < S" using v by (simp add: valid_call_def)
  have mrow: "data m ! (b * S + s) " if "s < S" for s
    using row that by (simp add: elem_def shm)
  define sm where "sm = softmax_lanes xsoftmax_row S (Suc 0) a"
  define wa :: "xreal tensor" where
    "wa = \<lparr>shape = [B, S, H, W], data = transpose_data sm B (H * W) S\<rparr>"
  have nan: "elem wa [b, s, h, w] = NaN"
    if h: "h < H" and w: "w < W" and s: "s < S"
      and md: "(b * (H * W) + (h * W + w)) mod B = b" for h w s
  proof -
    define q where "q = h * W + w"
    define r where "r = b * (H * W) + q"
    have q: "q < H * W" unfolding q_def using h w by (rule index_bound2)
    have r: "r < B * (H * W)" unfolding r_def using b q by (rule index_bound2)
    have rb: "r mod B = b" using md by (simp add: r_def q_def)
    have "elem wa [b, s, h, w] = transpose_data sm B (H * W) S ! (b * (S * (H * W)) + s * (H * W) + q)"
      by (simp add: elem_def wa_def q_def add.assoc)
    also have "\<dots> = sm ! (b * (H * W * S) + q * S + s)"
      by (rule transpose_data_nth[OF b s q])
    also have "\<dots> = sm ! (r * S + s)"
      by (simp add: r_def algebra_simps)
    also have "\<dots> = xsoftmax_row (map (\<lambda>s'. a ! (r * S + s')) [0..<S]) ! s"
      unfolding sm_def using len r s by (intro softmax_rows_at) simp_all
    also have "map (\<lambda>s'. a ! (r * S + s')) [0..<S] = replicate S NInf"
    proof (rule nth_equalityI)
      show "length (map (\<lambda>s'. a ! (r * S + s')) [0..<S]) = length (replicate S NInf)" by simp
    next
      fix i assume "i < length (map (\<lambda>s'. a ! (r * S + s')) [0..<S])"
      then have i: "i < S" by simp
      have "a ! (r * S + i) = NInf"
        using msk m r i mrow[OF i] rb by simp
      then show "map (\<lambda>s'. a ! (r * S + s')) [0..<S] ! i = replicate S NInf ! i"
        using i by simp
    qed
    also have "xsoftmax_row (replicate S NInf) ! s = NaN"
      using posS s by (simp add: xsoftmax_row_all_masked)
    finally show ?thesis .
  qed
  show ?thesis
    using forward_eq_trace[OF tr] nan unfolding wa_def sm_def by simp
qed

theorem fully_masked_row_gives_nan_witness:
  "valid_call full_layer bug_input bug_sentence bug_context 2 1 1 2 1 2 \<and>
   mask_t full_layer = Some full_mask \<and>
   (0::nat) < 2 \<and>
   elem full_mask [0, 0] \<and> elem full_mask [0, 1] \<and>
   (\<exists>weightedContext weightedSentence word_attn sent_att.
     forward full_layer bug_input bug_sentence bug_context =
       Inr (weightedContext, weightedSentence, word_attn, sent_att) \<and>
     (0 * (1 * 2) + (0 * 2 + 0)) mod 2 = (0::nat) \<and>
     elem word_attn [0, 0, 0, 0] = NaN \<and> elem word_attn [0, 1, 0, 0] = NaN)"
proof -
  have m: "mask_t full_layer = Some full_mask"
    by (simp add: full_layer_def applyMask_def)
  have b: "(0::nat) < 2" by simp
  have r0: "elem full_mask [0, 0]" and r1: "elem full_mask [0, 1]"
    by (simp_all add: elem_def full_mask_def)
  have row: "\<forall>s<2. elem full_mask [0, s]"
    using r0 r1 by (simp add: less_Suc_eq numeral_2_eq_2)
  from fully_masked_row_gives_nan[OF full_valid_call m b row] obtain wc ws wa sa where
    f: "forward full_layer bug_input bug_sentence bug_context = Inr (wc, ws, wa, sa)"
    and n: "\<forall>h<1. \<forall>w<2. (0 * (1 * 2) + (h * 2 + w)) mod 2 = 0 \<longrightarrow>
              (\<forall>s<2. elem wa [0, s, h, w] = NaN)"
    by (elim exE conjE) (rule that, assumption+)
  have md: "(0 * (1 * 2) + (0 * 2 + 0)) mod 2 = (0::nat)" by simp
  have n0: "elem wa [0, 0, 0, 0] = NaN" and n1: "elem wa [0, 1, 0, 0] = NaN"
    using n md by simp_all
  show ?thesis
    apply (intro conjI full_valid_call m b r0 r1)
    apply (rule exI[where x = wc], rule exI[where x = ws])
    apply (rule exI[where x = wa], rule exI[where x = sa])
    apply (intro conjI f md n0 n1)
    done
qed

section \<open>The shape of the attention map of func_attention\<close>

text \<open>
  Claim C4. The claim: for \<open>query\<close> of shape \<open>[B, D, Q]\<close> and \<open>context\<close> of shape
  \<open>[B, D, ih, iw]\<close> the attention map returned has shape \<open>[B, S, ih, iw]\<close> with
  \<open>S = ih * iw\<close>. On the call below (\<open>Q = 3\<close>, \<open>ih = 1\<close>, \<open>iw = 2\<close>) the map has
  shape \<open>[1, 3, 1, 2]\<close>, not \<open>[1, 2, 1, 2]\<close>.
\<close>

theorem attention_map_shape_counterexample:
  "func_attention fa_query fa_context 1 =
     Inr (\<lparr>shape = [1, 1, 3], data = [Fin 0, Fin 0, Fin 0]\<rparr>,
          \<lparr>shape = [1, 3, 1, 2],
           data = [Fin (1 / 2), Fin (1 / 2), Fin (1 / 2), Fin (1 / 2), Fin (1 / 2), Fin (1 / 2)]\<rparr>) \<and>
   [1, 3, 1, 2] \<noteq> [1, 1 * 2, 1, 2 :: nat]"
  by (simp add: fa_query_def fa_context_def eval_defs)

text \<open>
  Claim C4, as the code has it. The map is \<^verbatim>\<open>attn.view(batch_size, -1, ih, iw)\<close> of a
  tensor with \<open>B * Q * S\<close> elements, so for every valid call it has shape
  \<open>[B, Q, ih, iw]\<close>: one \<open>ih\<close> by \<open>iw\<close> map per query position. The weighted
  context has shape \<open>[B, D, Q]\<close>.
\<close>

theorem attention_map_shape:
  assumes v: "valid_attention_call query context B D Q ih iw"
  shows "\<exists>weightedContext attn_map.
     func_attention query context gamma1 = Inr (weightedContext, attn_map) \<and>
     shape attn_map = [B, Q, ih, iw] \<and> shape weightedContext = [B, D, Q] \<and>
     wf_tensor attn_map \<and> wf_tensor weightedContext"
proof -
  from func_attention_trace_valid[OF v, of gamma1] obtain a7 a8 a9 wc d where
    tr: "func_attention_trace query context gamma1 =
           Inr (a7, a8, a9, \<lparr>shape = [B, D, Q], data = wc\<rparr>,
                \<lparr>shape = [B, Q, ih, iw],
                 data = softmax_lanes xsoftmax_row (ih * iw) (Suc 0)
                          (map (\<lambda>x. x * Fin gamma1) (transpose_data d B (ih * iw) Q))\<rparr>)"
    and len: "length wc = B * (D * Q)"
    by (elim exE conjE) (rule that, assumption+)
  show ?thesis
    using func_attention_eq_trace[OF tr] len by (simp add: wf_tensor_def)
qed

theorem attention_map_shape_witness:
  "valid_attention_call fa_query fa_context 1 1 3 1 2 \<and>
   (\<exists>weightedContext attn_map.
     func_attention fa_query fa_context 1 = Inr (weightedContext, attn_map) \<and>
     shape attn_map = [1, 3, 1, 2] \<and> shape weightedContext = [1, 1, 3] \<and>
     wf_tensor attn_map \<and> wf_tensor weightedContext)"
  using fa_valid attention_map_shape[OF fa_valid, of 1] by (rule conjI)

section \<open>Shapes of the outputs of forward\<close>

text \<open>
  Claim C5. For every valid call of \<^verbatim>\<open>forward\<close> with \<open>input\<close> of shape
  \<open>[B, D, H, W]\<close>, \<open>sentence\<close> of shape \<open>[B, 100]\<close> and \<open>context\<close> of shape
  \<open>[B, C, S]\<close>, the call returns, \<open>weightedContext\<close> has shape \<open>[B, D, H, W]\<close>,
  \<open>word_attn\<close> has shape \<open>[B, S, H, W]\<close>, and \<open>sent_att\<close> and \<open>weightedSentence\<close>
  have the shape of \<open>input\<close>; every output has as many elements as its shape says.
\<close>

theorem forward_shape_contract:
  assumes "valid_call self input sentence context B D H W C S"
  shows "\<exists>weightedContext weightedSentence word_attn sent_att.
     forward self input sentence context =
       Inr (weightedContext, weightedSentence, word_attn, sent_att) \<and>
     shape weightedContext = [B, D, H, W] \<and> shape word_attn = [B, S, H, W] \<and>
     shape sent_att = shape input \<and> shape weightedSentence = shape input \<and>
     wf_tensor weightedContext \<and> wf_tensor word_attn \<and>
     wf_tensor sent_att \<and> wf_tensor weightedSentence"
proof -
  from forward_trace_valid[OF assms] obtain sv a wc ws where
    tr: "forward_trace self input sentence context =
       Inr (\<lparr>shape = [B * (H * W), S], data = softmax_lanes xsoftmax_row S (Suc 0) a\<rparr>,
            \<lparr>shape = [B, D, H, W], data = wc\<rparr>,
            \<lparr>shape = [B, D, H, W], data = ws\<rparr>,
            \<lparr>shape = [B, S, H, W],
             data = transpose_data (softmax_lanes xsoftmax_row S (Suc 0) a) B (H * W) S\<rparr>,
            \<lparr>shape = [B, D, H, W], data = softmax_lanes xsoftmax_row D (H * W) sv\<rparr>)"
    and len: "length a = B * (H * W) * S" "length sv = B * (D * (H * W))"
      "length wc = B * (D * (H * W))" "length ws = B * (D * (H * W))"
    by (elim exE conjE) (rule that, assumption+)
  have inp: "shape input = [B, D, H, W]" using assms by (simp add: valid_call_def)
  show ?thesis
    using forward_eq_trace[OF tr] len inp by (simp add: wf_tensor_def)
qed

theorem forward_shape_contract_witness:
  "valid_call ex_layer ex_input ex_sentence ex_context 2 4 3 3 6 5 \<and>
   (\<exists>weightedContext weightedSentence word_attn sent_att.
     forward ex_layer ex_input ex_sentence ex_context =
       Inr (weightedContext, weightedSentence, word_attn, sent_att) \<and>
     shape weightedContext = [2, 4, 3, 3] \<and> shape word_attn = [2, 5, 3, 3] \<and>
     shape sent_att = shape ex_input \<and> shape weightedSentence = shape ex_input \<and>
     wf_tensor weightedContext \<and> wf_tensor word_attn \<and>
     wf_tensor sent_att \<and> wf_tensor weightedSentence)"
  using ex_valid_call forward_shape_contract[OF ex_valid_call] by (rule conjI)

section \<open>The sentence attention is a softmax over the channels\<close>

text \<open>
  Claim C6. The claim: \<open>sent_att\<close> is a softmax over the channels of the output of the
  gating convolution, so that for every input the entries of \<open>sent_att\<close> across the
  channels are non-negative and sum to 1 at every batch element and position. On the call
  below the one entry of \<open>input\<close> is \<open>+inf\<close>; the gating convolution returns
  \<open>+inf\<close> and the one entry of \<open>sent_att\<close> is NaN.
\<close>

theorem sentence_attention_not_finite_counterexample:
  "forward inf_layer inf_input inf_sentence inf_context =
     Inr (\<lparr>shape = [1, 1, 1, 1], data = [NaN]\<rparr>,
          \<lparr>shape = [1, 1, 1, 1], data = [NaN]\<rparr>,
          \<lparr>shape = [1, 1, 1, 1], data = [NaN]\<rparr>,
          \<lparr>shape = [1, 1, 1, 1], data = [NaN]\<rparr>) \<and>
   elem \<lparr>shape = [1, 1, 1, 1], data = [NaN]\<rparr> [0, 0, 0, 0] \<noteq> Fin 1"
  by (simp add: inf_layer_def inf_input_def inf_sentence_def inf_context_def eval_defs elem_def)

text \<open>
  Claim C6, as the code has it. For every valid call, \<open>sentence_vs\<close> being what
  \<^verbatim>\<open>conv_sentence_vis\<close> returns on the product of \<open>input\<close> with the projected,
  repeated sentence vector: \<open>sent_att\<close> is \<^verbatim>\<open>nn.Softmax()\<close> of \<open>sentence_vs\<close>,
  which has rank 4, so the softmax runs over dimension 1, the channels:
  \<open>sent_att[b, c, h, w]\<close> is entry \<open>c\<close> of the softmax of the lane
  \<open>sentence_vs[b, :, h, w]\<close>. At every batch element \<open>b\<close> and position \<open>(h, w)\<close>
  where the \<open>D\<close> entries of that lane are finite (no infinity or NaN, which in the program
  also needs that nothing overflowed), the entries \<open>sent_att[b, c, h, w]\<close> are
  non-negative and their sum over the channels \<open>c\<close> is 1. The sum is exact here because
  the arithmetic of the model is; in the program it holds up to rounding.
\<close>

theorem sentence_attention_channel_softmax:
  assumes v: "valid_call self input sentence context B D H W C S"
  shows "\<exists>sentence_vs weightedContext weightedSentence word_attn sent_att.
     bnd (F_linear (linear_m self) sentence) (\<lambda>s.
       bnd (view s [Sz B, Sz D, Sz 1, Sz 1]) (\<lambda>s.
       bnd (repeat s [1, 1, H, W]) (\<lambda>s.
       bnd (mul input s) (\<lambda>p. conv1x1 (conv_sentence_vis self) p)))) = Inr sentence_vs \<and>
     shape sentence_vs = [B, D, H, W] \<and>
     forward self input sentence context =
       Inr (weightedContext, weightedSentence, word_attn, sent_att) \<and>
     sent_att = nn_Softmax sentence_vs \<and>
     (\<forall>b<B. \<forall>h<H. \<forall>w<W.
        (\<forall>c<D. elem sent_att [b, c, h, w] =
                 xsoftmax_row (map (\<lambda>c'. elem sentence_vs [b, c', h, w]) [0..<D]) ! c) \<and>
        ((\<forall>c<D. is_finite (elem sentence_vs [b, c, h, w])) \<longrightarrow>
           (\<forall>c<D. \<exists>x. elem sent_att [b, c, h, w] = Fin x \<and> 0 \<le> x) \<and>
           (\<Sum>c<D. elem sent_att [b, c, h, w]) = Fin 1))"
proof -
  from forward_trace_valid[OF v] obtain sv a wc ws where
    ch: "bnd (F_linear (linear_m self) sentence) (\<lambda>s.
       bnd (view s [Sz B, Sz D, Sz 1, Sz 1]) (\<lambda>s.
       bnd (repeat s [1, 1, H, W]) (\<lambda>s.
       bnd (mul input s) (\<lambda>p. conv1x1 (conv_sentence_vis self) p))))
       = Inr \<lparr>shape = [B, D, H, W], data = sv\<rparr>"
    and tr: "forward_trace self input sentence context =
       Inr (\<lparr>shape = [B * (H * W), S], data = softmax_lanes xsoftmax_row S (Suc 0) a\<rparr>,
            \<lparr>shape = [B, D, H, W], data = wc\<rparr>,
            \<lparr>shape = [B, D, H, W], data = ws\<rparr>,
            \<lparr>shape = [B, S, H, W],
             data = transpose_data (softmax_lanes xsoftmax_row S (Suc 0) a) B (H * W) S\<rparr>,
            \<lparr>shape = [B, D, H, W], data = softmax_lanes xsoftmax_row D (H * W) sv\<rparr>)"
    and len: "length sv = B * (D * (H * W))"
    by (elim exE conjE) (rule that, assumption+)
  define vs :: "xreal tensor" where "vs = \<lparr>shape = [B, D, H, W], data = sv\<rparr>"
  define sa :: "xreal tensor" where
    "sa = \<lparr>shape = [B, D, H, W], data = softmax_lanes xsoftmax_row D (H * W) sv\<rparr>"
  have pos: "0 < D" using v by (simp add: valid_call_def)
  have sm: "sa = nn_Softmax vs"
    by (simp add: sa_def vs_def nn_Softmax_def softmax_dim_def Let_def)
  have ev: "elem vs [b, c, h, w] = sv ! (b * (D * (H * W)) + c * (H * W) + (h * W + w))"
    for b c h w
    by (simp add: elem_def vs_def add.assoc)
  have el: "elem sa [b, c, h, w]
            = softmax_lanes xsoftmax_row D (H * W) sv ! (b * (D * (H * W)) + c * (H * W) + (h * W + w))"
    for b c h w
    by (simp add: elem_def sa_def add.assoc)
  have pt: "(\<forall>c<D. elem sa [b, c, h, w] =
                 xsoftmax_row (map (\<lambda>c'. elem vs [b, c', h, w]) [0..<D]) ! c) \<and>
        ((\<forall>c<D. is_finite (elem vs [b, c, h, w])) \<longrightarrow>
           (\<forall>c<D. \<exists>x. elem sa [b, c, h, w] = Fin x \<and> 0 \<le> x) \<and>
           (\<Sum>c<D. elem sa [b, c, h, w]) = Fin 1)"
    if "b < B" "h < H" "w < W" for b h w
  proof -
    have k: "h * W + w < H * W" using that(2,3) by (rule index_bound2)
    have one: "elem sa [b, c, h, w] = xsoftmax_row (map (\<lambda>c'. elem vs [b, c', h, w]) [0..<D]) ! c"
      if "c < D" for c
      unfolding el ev using len \<open>b < B\<close> that k by (rule softmax_lanes_at)
    have two: "(\<forall>c<D. \<exists>x. elem sa [b, c, h, w] = Fin x \<and> 0 \<le> x) \<and>
               (\<Sum>c<D. elem sa [b, c, h, w]) = Fin 1"
      if "\<forall>c<D. is_finite (elem vs [b, c, h, w])"
      using xsoftmax_lanes_distribution[OF len \<open>b < B\<close> k pos that[unfolded ev]]
      unfolding el .
    show ?thesis using one two by blast
  qed
  have all: "\<forall>b<B. \<forall>h<H. \<forall>w<W.
        (\<forall>c<D. elem sa [b, c, h, w] =
                 xsoftmax_row (map (\<lambda>c'. elem vs [b, c', h, w]) [0..<D]) ! c) \<and>
        ((\<forall>c<D. is_finite (elem vs [b, c, h, w])) \<longrightarrow>
           (\<forall>c<D. \<exists>x. elem sa [b, c, h, w] = Fin x \<and> 0 \<le> x) \<and>
           (\<Sum>c<D. elem sa [b, c, h, w]) = Fin 1)"
    using pt by blast
  have shv: "shape vs = [B, D, H, W]" by (simp add: vs_def)
  have f: "forward self input sentence context =
             Inr (\<lparr>shape = [B, D, H, W], data = wc\<rparr>, \<lparr>shape = [B, D, H, W], data = ws\<rparr>,
                  \<lparr>shape = [B, S, H, W],
                   data = transpose_data (softmax_lanes xsoftmax_row S (Suc 0) a) B (H * W) S\<rparr>, sa)"
    unfolding sa_def by (rule forward_eq_trace[OF tr])
  show ?thesis
    apply (rule exI[where x = vs], rule exI[where x = "\<lparr>shape = [B, D, H, W], data = wc\<rparr>"])
    apply (rule exI[where x = "\<lparr>shape = [B, D, H, W], data = ws\<rparr>"])
    apply (rule exI[where x = "\<lparr>shape = [B, S, H, W],
                   data = transpose_data (softmax_lanes xsoftmax_row S (Suc 0) a) B (H * W) S\<rparr>"])
    apply (rule exI[where x = sa])
    apply (intro conjI ch[folded vs_def] shv f sm all)
    done
qed

theorem sentence_attention_channel_softmax_witness:
  "valid_call gate_layer gate_input gate_sentence gate_context 1 2 1 1 1 1 \<and>
   (\<exists>sentence_vs weightedContext weightedSentence word_attn sent_att.
     bnd (F_linear (linear_m gate_layer) gate_sentence) (\<lambda>s.
       bnd (view s [Sz 1, Sz 2, Sz 1, Sz 1]) (\<lambda>s.
       bnd (repeat s [1, 1, 1, 1]) (\<lambda>s.
       bnd (mul gate_input s) (\<lambda>p. conv1x1 (conv_sentence_vis gate_layer) p)))) = Inr sentence_vs \<and>
     forward gate_layer gate_input gate_sentence gate_context =
       Inr (weightedContext, weightedSentence, word_attn, sent_att) \<and>
     is_finite (elem sentence_vs [0, 0, 0, 0]) \<and> is_finite (elem sentence_vs [0, 1, 0, 0]) \<and>
     (\<forall>c<2. \<exists>x. elem sent_att [0, c, 0, 0] = Fin x \<and> 0 \<le> x) \<and>
     (\<Sum>c<2. elem sent_att [0, c, 0, 0]) = Fin 1)"
proof -
  from sentence_attention_channel_softmax[OF gate_valid_call] obtain vs wc ws wa sa where
    ch: "bnd (F_linear (linear_m gate_layer) gate_sentence) (\<lambda>s.
       bnd (view s [Sz 1, Sz 2, Sz 1, Sz 1]) (\<lambda>s.
       bnd (repeat s [1, 1, 1, 1]) (\<lambda>s.
       bnd (mul gate_input s) (\<lambda>p. conv1x1 (conv_sentence_vis gate_layer) p)))) = Inr vs"
    and f: "forward gate_layer gate_input gate_sentence gate_context = Inr (wc, ws, wa, sa)"
    and all: "\<forall>b<1. \<forall>h<1. \<forall>w<1.
        (\<forall>c<2. elem sa [b, c, h, w] =
                 xsoftmax_row (map (\<lambda>c'. elem vs [b, c', h, w]) [0..<2]) ! c) \<and>
        ((\<forall>c<2. is_finite (elem vs [b, c, h, w])) \<longrightarrow>
           (\<forall>c<2. \<exists>x. elem sa [b, c, h, w] = Fin x \<and> 0 \<le> x) \<and>
           (\<Sum>c<2. elem sa [b, c, h, w]) = Fin 1)"
    by (elim exE conjE) (rule that, assumption+)
  have vs: "vs = \<lparr>shape = [1, 2, 1, 1], data = [Fin 1, Fin 2]\<rparr>"
    using ch unfolding gate_output by simp
  have f0: "is_finite (elem vs [0, 0, 0, 0])" and f1: "is_finite (elem vs [0, 1, 0, 0])"
    by (simp_all add: vs elem_def)
  have fin: "\<forall>c<2. is_finite (elem vs [0, c, 0, 0])"
    using f0 f1 by (simp add: less_Suc_eq numeral_2_eq_2)
  have z: "(0::nat) < 1" by simp
  note pt = all[THEN spec, THEN mp, OF z, THEN spec, THEN mp, OF z, THEN spec, THEN mp, OF z]
  from pt[THEN conjunct2] fin
  have c: "(\<forall>c<2. \<exists>x. elem sa [0, c, 0, 0] = Fin x \<and> 0 \<le> x) \<and>
           (\<Sum>c<2. elem sa [0, c, 0, 0]) = Fin 1"
    by (rule mp)
  show ?thesis
    apply (rule conjI[OF gate_valid_call])
    apply (rule exI[where x = vs], rule exI[where x = wc], rule exI[where x = ws])
    apply (rule exI[where x = wa], rule exI[where x = sa])
    apply (intro conjI ch f f0 f1 c[THEN conjunct1] c[THEN conjunct2])
    done
qed

end
